theory Spec2Isabelle
  imports Complex_Main "HOL-Library.Sublist"
begin

section \<open>Strings and lines\<close>

text \<open>
  The front end (\<^verbatim>\<open>frontend/src/App.js\<close>) decodes every network buffer with a
  \<^verbatim>\<open>TextDecoder\<close> and works on the resulting text. Text is modelled as \<open>string\<close>; a
  \<open>char\<close> stands for one code unit below 256, which covers the ASCII framing of the NDJSON
  streams (newline, braces, quotes, white space). Code units above 255 and the decoding of
  multi-byte sequences are outside the model.
\<close>

definition nl :: char where
  "nl = CHR 0x0A"

text \<open>The characters \<^verbatim>\<open>String.prototype.trim\<close> removes, among the code units below 256:
  TAB, LF, VT, FF, CR, SPACE and NBSP.\<close>

definition js_space :: "char \<Rightarrow> bool" where
  "js_space c = (of_char c \<in> {9::nat, 10, 11, 12, 13, 32, 160})"

definition trim :: "string \<Rightarrow> string" where
  "trim s = rev (dropWhile js_space (rev (dropWhile js_space s)))"

text \<open>\<^verbatim>\<open>chunk.split('\n')\<close>: the pieces between newlines; a text without newline is one piece,
  the empty text gives one empty piece, a trailing newline gives a last empty piece.\<close>

fun split_nl :: "string \<Rightarrow> string list" where
  "split_nl [] = [[]]"
| "split_nl (c # cs) =
     (if c = nl then [] # split_nl cs
      else (case split_nl cs of [] \<Rightarrow> [[c]] | l # ls \<Rightarrow> (c # l) # ls))"

text \<open>\<^verbatim>\<open>trimmed.startsWith('{')\<close>\<close>

definition startsWith_brace :: "string \<Rightarrow> bool" where
  "startsWith_brace s = (case s of [] \<Rightarrow> False | c # _ \<Rightarrow> c = CHR ''{'')"


section \<open>Decoded records\<close>

text \<open>
  Both handlers read a decoded line through a handful of fields: the chat handler reads
  \<^verbatim>\<open>parsed.message\<close> and \<^verbatim>\<open>parsed.message.content\<close>, the pull handler reads \<^verbatim>\<open>json.total\<close>,
  \<^verbatim>\<open>json.completed\<close> and \<^verbatim>\<open>json.status\<close>. A decoded record is modelled by these fields, at
  the types the Ollama API gives them (text for \<^verbatim>\<open>content\<close> and \<^verbatim>\<open>status\<close>, byte counts for
  \<^verbatim>\<open>total\<close> and \<^verbatim>\<open>completed\<close>); \<open>None\<close> is JavaScript's \<^verbatim>\<open>undefined\<close>, the value of a field that
  is not there. Values of other types in these fields, and the coercions JavaScript would
  apply to them, are outside the model.
\<close>

datatype message_obj = Message (message_content: "string option")

record json_record =
  message :: "message_obj option"
  status :: "string option"
  total :: "nat option"
  completed :: "nat option"

text \<open>
  \<^verbatim>\<open>JSON.parse\<close> belongs to the platform, not to the repository. The handlers are modelled
  for an arbitrary decoder \<open>parse\<close>: \<open>parse l = None\<close> says that decoding \<open>l\<close> throws (a
  \<^verbatim>\<open>SyntaxError\<close>, or the \<^verbatim>\<open>TypeError\<close> of reading a field of \<^verbatim>\<open>null\<close>), \<open>parse l = Some r\<close> that it
  returns a value whose fields read as \<open>r\<close>.
\<close>

type_synonym decoder = "string \<Rightarrow> json_record option"

text \<open>JavaScript truthiness of an optional text and of an optional number: \<^verbatim>\<open>undefined\<close>,
  the empty text and \<^verbatim>\<open>0\<close> are falsy.\<close>

definition truthy_str :: "string option \<Rightarrow> bool" where
  "truthy_str v = (case v of None \<Rightarrow> False | Some s \<Rightarrow> s \<noteq> [])"

definition truthy_num :: "nat option \<Rightarrow> bool" where
  "truthy_num v = (case v of None \<Rightarrow> False | Some n \<Rightarrow> n \<noteq> 0)"


section \<open>A decoder to run examples with\<close>

text \<open>
  The theorems about the handlers hold for every decoder. To evaluate the handlers on
  concrete streams, \<open>JSON_parse\<close> decodes a fragment of JSON: white space between tokens,
  objects with text keys, and as values texts without escape sequences, unsigned decimal
  integers without leading zero, and nested objects; of duplicate keys the last one counts.
  It accepts a text of the fragment whose \<^verbatim>\<open>message\<close>, \<^verbatim>\<open>message.content\<close>, \<^verbatim>\<open>status\<close>, \<^verbatim>\<open>total\<close>
  and \<^verbatim>\<open>completed\<close>, where present, have the types of \<open>json_record\<close> (a text or a number
  on its own reads as a record without fields), and rejects every other text. On the texts
  it accepts, and on texts that are not JSON at all, it answers as \<^verbatim>\<open>JSON.parse\<close> does; the
  examples below use no other texts.
\<close>

datatype token = LBrace | RBrace | Colon | Comma | TStr string | TNum nat

datatype lex_state = Idle | InStr string | InNum nat

definition is_digit :: "char \<Rightarrow> bool" where
  "is_digit c = (let n = of_char c :: nat in 48 \<le> n \<and> n \<le> 57)"

definition digit_val :: "char \<Rightarrow> nat" where
  "digit_val c = of_char c - 48"

definition json_space :: "char \<Rightarrow> bool" where
  "json_space c = (of_char c \<in> {9::nat, 10, 13, 32})"

definition punct :: "char \<Rightarrow> token option" where
  \<open>punct c = (if c = CHR ''{'' then Some LBrace else if c = CHR ''}'' then Some RBrace
     else if c = CHR '':'' then Some Colon else if c = CHR '','' then Some Comma else None)\<close>

fun lexer :: "lex_state \<Rightarrow> string \<Rightarrow> token list option" where
  "lexer Idle [] = Some []"
| "lexer (InNum n) [] = Some [TNum n]"
| "lexer (InStr s) [] = None"
| \<open>lexer (InStr s) (c # cs) =
     (if c = CHR ''"'' then map_option (Cons (TStr (rev s))) (lexer Idle cs)
      else if c = CHR 0x5C \<or> of_char c < (32::nat) then None
      else lexer (InStr (c # s)) cs)\<close>
| "lexer (InNum n) (c # cs) =
     (if is_digit c then (if n = 0 then None else lexer (InNum (10 * n + digit_val c)) cs)
      else if json_space c then map_option (Cons (TNum n)) (lexer Idle cs)
      else (case punct c of
              None \<Rightarrow> None
            | Some t \<Rightarrow> map_option (\<lambda>ts. TNum n # t # ts) (lexer Idle cs)))"
| \<open>lexer Idle (c # cs) =
     (if json_space c then lexer Idle cs
      else if c = CHR ''"'' then lexer (InStr []) cs
      else if is_digit c then lexer (InNum (digit_val c)) cs
      else (case punct c of
              None \<Rightarrow> None
            | Some t \<Rightarrow> map_option (Cons t) (lexer Idle cs)))\<close>

datatype jvalue = JStr string | JNum nat | JObj "(string \<times> jvalue) list"

fun parse_value :: "nat \<Rightarrow> token list \<Rightarrow> (jvalue \<times> token list) option"
  and parse_members :: "nat \<Rightarrow> token list \<Rightarrow> ((string \<times> jvalue) list \<times> token list) option"
where
  "parse_value 0 ts = None"
| "parse_value (Suc f) (TStr s # ts) = Some (JStr s, ts)"
| "parse_value (Suc f) (TNum n # ts) = Some (JNum n, ts)"
| "parse_value (Suc f) (LBrace # RBrace # ts) = Some (JObj [], ts)"
| "parse_value (Suc f) (LBrace # ts) =
     (case parse_members f ts of
        Some (ms, RBrace # ts') \<Rightarrow> Some (JObj ms, ts')
      | _ \<Rightarrow> None)"
| "parse_value (Suc f) ts = None"
| "parse_members 0 ts = None"
| "parse_members (Suc f) (TStr k # Colon # ts) =
     (case parse_value f ts of
        None \<Rightarrow> None
      | Some (v, Comma # ts') \<Rightarrow>
          (case parse_members f ts' of
             None \<Rightarrow> None
           | Some (ms, ts'') \<Rightarrow> Some ((k, v) # ms, ts''))
      | Some (v, ts') \<Rightarrow> Some ([(k, v)], ts'))"
| "parse_members (Suc f) ts = None"

definition field :: "(string \<times> jvalue) list \<Rightarrow> string \<Rightarrow> jvalue option" where
  "field ms k = map_of (rev ms) k"

definition text_field :: "(string \<times> jvalue) list \<Rightarrow> string \<Rightarrow> string option option" where
  "text_field ms k =
     (case field ms k of
        None \<Rightarrow> Some None
      | Some (JStr s) \<Rightarrow> Some (Some s)
      | Some _ \<Rightarrow> None)"

definition count_field :: "(string \<times> jvalue) list \<Rightarrow> string \<Rightarrow> nat option option" where
  "count_field ms k =
     (case field ms k of
        None \<Rightarrow> Some None
      | Some (JNum n) \<Rightarrow> Some (Some n)
      | Some _ \<Rightarrow> None)"

definition message_field :: "(string \<times> jvalue) list \<Rightarrow> message_obj option option" where
  "message_field ms =
     (case field ms ''message'' of
        None \<Rightarrow> Some None
      | Some (JObj ms') \<Rightarrow> map_option (\<lambda>c. Some (Message c)) (text_field ms' ''content'')
      | Some _ \<Rightarrow> None)"

definition record_of :: "jvalue \<Rightarrow> json_record option" where
  "record_of v =
     (case v of
        JObj ms \<Rightarrow>
          (case (message_field ms, text_field ms ''status'',
                 count_field ms ''total'', count_field ms ''completed'') of
             (Some m, Some s, Some t, Some c) \<Rightarrow>
               Some \<lparr>message = m, status = s, total = t, completed = c\<rparr>
           | _ \<Rightarrow> None)
      | _ \<Rightarrow> Some \<lparr>message = None, status = None, total = None, completed = None\<rparr>)"

definition JSON_parse :: decoder where
  "JSON_parse s =
     (case lexer Idle s of
        None \<Rightarrow> None
      | Some ts \<Rightarrow>
          (case parse_value (Suc (length ts)) ts of
             Some (v, []) \<Rightarrow> record_of v
           | _ \<Rightarrow> None))"


section \<open>The record sequence of a chat stream\<close>

text \<open>
  \<^verbatim>\<open>handleChatSubmit\<close>, for each buffer: \<^verbatim>\<open>chunk.split('\n')\<close>, then for each line
  \<^verbatim>\<open>trimmed = line.trim()\<close>; a line whose trimmed text is empty or does not start with \<^verbatim>\<open>{\<close> is
  skipped; \<^verbatim>\<open>JSON.parse(trimmed)\<close> runs inside \<^verbatim>\<open>try { } catch (_) { }\<close>, so a line that
  fails to decode is skipped too. \<open>chat_line_record\<close> is the record the loop body gets to
  work on for one line, if any.
\<close>

definition chat_line_record :: "decoder \<Rightarrow> string \<Rightarrow> json_record option" where
  "chat_line_record parse line =
     (let trimmed = trim line in
      if trimmed = [] \<or> \<not> startsWith_brace trimmed then None
      else parse trimmed)"

definition chat_chunk_records :: "decoder \<Rightarrow> string \<Rightarrow> json_record list" where
  "chat_chunk_records parse chunk = List.map_filter (chat_line_record parse) (split_nl chunk)"

definition chat_records :: "decoder \<Rightarrow> string list \<Rightarrow> json_record list" where
  "chat_records parse chunks = concat (map (chat_chunk_records parse) chunks)"


section \<open>The record sequence of a pull stream\<close>

text \<open>
  \<^verbatim>\<open>handlePullModel\<close>, for each buffer:
  \<^verbatim>\<open>lines = chunk.split('\n').filter(line => line.trim() !== '')\<close>, then \<^verbatim>\<open>JSON.parse(line)\<close>
  for each line, with no \<^verbatim>\<open>try\<close> around it: the first line that fails to decode throws out
  of the read loop into the handler's \<^verbatim>\<open>catch\<close>. A pull stream therefore yields the records
  decoded before the first failure, and whether it was aborted by one.
\<close>

definition pull_chunk_lines :: "string \<Rightarrow> string list" where
  "pull_chunk_lines chunk = filter (\<lambda>line. trim line \<noteq> []) (split_nl chunk)"

datatype pull_outcome = Completed | Aborted

fun pull_decode :: "decoder \<Rightarrow> string list \<Rightarrow> json_record list \<times> pull_outcome" where
  "pull_decode parse [] = ([], Completed)"
| "pull_decode parse (l # ls) =
     (case parse l of
        None \<Rightarrow> ([], Aborted)
      | Some r \<Rightarrow> (case pull_decode parse ls of (rs, out) \<Rightarrow> (r # rs, out)))"

fun pull_records :: "decoder \<Rightarrow> string list \<Rightarrow> json_record list \<times> pull_outcome" where
  "pull_records parse [] = ([], Completed)"
| "pull_records parse (chunk # chunks) =
     (case pull_decode parse (pull_chunk_lines chunk) of
        (rs, Aborted) \<Rightarrow> (rs, Aborted)
      | (rs, Completed) \<Rightarrow> (case pull_records parse chunks of (rs', out) \<Rightarrow> (rs @ rs', out)))"


section \<open>Numbers\<close>

text \<open>
  JavaScript numbers and Python floats are IEEE 754 binary64 values. A finite binary64
  value is modelled by the rational it denotes, and every arithmetic operation by the exact
  operation followed by \<open>fl64\<close>, rounding to 53 significant bits, ties to even. The
  exponent is not bounded in the model: \<open>fl64\<close> is the machine rounding for results of
  magnitude between \<open>2^-1022\<close> and \<open>2^1024\<close>; where the Python code raises on a result beyond
  that range the raise is written out (\<open>py_truediv\<close>).
\<close>

text \<open>The number of binary digits of a positive integer.\<close>

function bitlen :: "int \<Rightarrow> nat" where
  "bitlen n = (if n \<le> 0 then 0 else Suc (bitlen (n div 2)))"
  by pat_completeness auto
termination
  by (relation "measure nat") auto

declare bitlen.simps [simp del]

definition pow2 :: "int \<Rightarrow> rat" where
  "pow2 e = (if 0 \<le> e then 2 ^ nat e else 1 / 2 ^ nat (- e))"

text \<open>For \<open>q > 0\<close>, \<open>ilog2 q\<close> is the exponent \<open>e\<close> with \<open>2^e \<le> q < 2^(e+1)\<close>.\<close>

definition ilog2 :: "rat \<Rightarrow> int" where
  "ilog2 q = (if 1 \<le> q then int (bitlen \<lfloor>q\<rfloor>) - 1
              else - int (bitlen (\<lceil>1 / q\<rceil> - 1)))"

definition round_half_even :: "rat \<Rightarrow> int" where
  "round_half_even q =
     (let f = \<lfloor>q\<rfloor>; r = q - of_int f in
      if r < 1 / 2 then f else if 1 / 2 < r then f + 1 else if even f then f else f + 1)"

definition fl64 :: "rat \<Rightarrow> rat" where
  "fl64 q =
     (if q = 0 then 0
      else (let u = pow2 (ilog2 \<bar>q\<bar> - 52) in of_int (round_half_even (q / u)) * u))"

text \<open>The binary64 value of an integer literal.\<close>

definition js_num :: "nat \<Rightarrow> rat" where
  "js_num n = fl64 (of_nat n)"

text \<open>\<^verbatim>\<open>Math.round\<close>: the nearest integer, a half rounds towards plus infinity.\<close>

definition Math_round :: "rat \<Rightarrow> int" where
  "Math_round x = \<lfloor>x + 1 / 2\<rfloor>"

text \<open>The text of an integer in a template literal: decimal digits. (This is what
  JavaScript prints for integers up to \<open>2^53\<close> in magnitude; beyond, it prints the shortest
  digits that identify the binary64 value, which the model does not follow.)\<close>

definition digit_char :: "nat \<Rightarrow> char" where
  "digit_char d = ''0123456789'' ! d"

fun decimal :: "nat \<Rightarrow> string" where
  "decimal n = (if n < 10 then [digit_char n] else decimal (n div 10) @ [digit_char (n mod 10)])"

declare decimal.simps [simp del]

definition Number_toString :: "int \<Rightarrow> string" where
  "Number_toString i = (if i < 0 then CHR ''-'' # decimal (nat (- i)) else decimal (nat i))"


section \<open>Application state\<close>

text \<open>The React state of \<^verbatim>\<open>App\<close> that the handlers below read or write, with the names of
  the \<^verbatim>\<open>useState\<close> variables. \<^verbatim>\<open>systemStats\<close> is the last sample fetched from the stats
  server (\<^verbatim>\<open>null\<close> before the first one), with the keys \<^verbatim>\<open>parse_tegrastats\<close> writes.\<close>

datatype role = User | Assistant

record chat_message =
  role :: role
  content :: string

record model_info =
  name :: string
  model_size :: "nat option"

record system_stats =
  ram_used_mb :: "nat option"
  ram_total_mb :: "nat option"
  ram_used_gb :: "rat option"
  ram_total_gb :: "rat option"
  cpu_usage_percent :: "rat option"
  gpu_usage_percent :: "nat option"
  soc_temp_c :: "rat option"

record app_state =
  systemStats :: "system_stats option"
  selectedModel :: string
  selectedModelInfo :: "model_info option"
  chatHistory :: "chat_message list"
  prompt :: string
  isStreaming :: bool
  pullModelName :: string
  pullStatus :: string

text \<open>What the network does to a streamed request: \<^verbatim>\<open>fetch\<close> rejects, or it resolves and
  the reader delivers buffers until \<^verbatim>\<open>done\<close> or until a read rejects. Streams are finite;
  a stream that never ends keeps the handler waiting and is not modelled.\<close>

datatype stream_end = Done | Failed

datatype fetch_result = FetchError | Response "string list" stream_end

text \<open>The requests a handler issues.\<close>

datatype request = PostPull string | PostChat string "chat_message list" | GetTags


section \<open>The pull handler\<close>

text \<open>The body of \<^verbatim>\<open>lines.forEach\<close> in \<^verbatim>\<open>handlePullModel\<close>, after \<^verbatim>\<open>JSON.parse\<close>:
  \<^verbatim>\<open>if (json.total && json.completed) { percent = Math.round((json.completed / json.total) * 100);
  setPullStatus(`Downloading... ${percent}%`) } else if (json.status) setPullStatus(json.status)\<close>.\<close>

definition js_percent :: "nat \<Rightarrow> nat \<Rightarrow> int" where
  "js_percent c t = Math_round (fl64 (fl64 (js_num c / js_num t) * 100))"

definition pull_record :: "app_state \<Rightarrow> json_record \<Rightarrow> app_state" where
  "pull_record st json =
     (if truthy_num (total json) \<and> truthy_num (completed json) then
        st\<lparr>pullStatus := ''Downloading... ''
              @ Number_toString (js_percent (the (completed json)) (the (total json))) @ ''%''\<rparr>
      else if truthy_str (status json) then st\<lparr>pullStatus := the (status json)\<rparr>
      else st)"

fun pull_lines :: "decoder \<Rightarrow> app_state \<Rightarrow> string list \<Rightarrow> app_state \<times> pull_outcome" where
  "pull_lines parse st [] = (st, Completed)"
| "pull_lines parse st (line # lines) =
     (case parse line of
        None \<Rightarrow> (st, Aborted)
      | Some json \<Rightarrow> pull_lines parse (pull_record st json) lines)"

definition pull_chunk :: "decoder \<Rightarrow> app_state \<Rightarrow> string \<Rightarrow> app_state \<times> pull_outcome" where
  "pull_chunk parse st chunk = pull_lines parse st (pull_chunk_lines chunk)"

fun pull_chunks :: "decoder \<Rightarrow> app_state \<Rightarrow> string list \<Rightarrow> app_state \<times> pull_outcome" where
  "pull_chunks parse st [] = (st, Completed)"
| "pull_chunks parse st (chunk # chunks) =
     (case pull_chunk parse st chunk of
        (st', Aborted) \<Rightarrow> (st', Aborted)
      | (st', Completed) \<Rightarrow> pull_chunks parse st' chunks)"

definition pull_begin :: "app_state \<Rightarrow> app_state" where
  "pull_begin st =
     st\<lparr>isStreaming := True, pullStatus := ''Pulling model: '' @ pullModelName st @ ''...''\<rparr>"

definition pull_success :: "app_state \<Rightarrow> app_state" where
  "pull_success st = st\<lparr>pullStatus := ''Model pulled successfully!''\<rparr>"

definition pull_catch :: "app_state \<Rightarrow> app_state" where
  "pull_catch st = st\<lparr>pullStatus := ''Error pulling model.''\<rparr>"

definition pull_finally :: "app_state \<Rightarrow> app_state" where
  "pull_finally st = st\<lparr>isStreaming := False\<rparr>"

text \<open>\<^verbatim>\<open>handlePullModel\<close> from submission to the end of its \<^verbatim>\<open>finally\<close> block, with the
  requests it issued. (The timer that clears \<^verbatim>\<open>pullStatus\<close> three seconds later, and the
  answer to the \<^verbatim>\<open>fetchModels\<close> request, are later events.)\<close>

definition handlePullModel ::
  "decoder \<Rightarrow> fetch_result \<Rightarrow> app_state \<Rightarrow> app_state \<times> request list" where
  "handlePullModel parse net st =
     (if pullModelName st = [] then (st, [])
      else
        (case net of
           FetchError \<Rightarrow> (pull_finally (pull_catch (pull_begin st)), [PostPull (pullModelName st)])
         | Response chunks e \<Rightarrow>
             (case pull_chunks parse (pull_begin st) chunks of
                (st', Aborted) \<Rightarrow> (pull_finally (pull_catch st'), [PostPull (pullModelName st)])
              | (st', Completed) \<Rightarrow>
                  (case e of
                     Failed \<Rightarrow> (pull_finally (pull_catch st'), [PostPull (pullModelName st)])
                   | Done \<Rightarrow>
                       (pull_finally (pull_success st'),
                        [PostPull (pullModelName st), GetTags])))))"


section \<open>The chat handler\<close>

text \<open>The body of \<^verbatim>\<open>lines.forEach\<close> in \<^verbatim>\<open>handleChatSubmit\<close>, on the pair of the local
  variables \<^verbatim>\<open>assistantContent\<close> and \<^verbatim>\<open>hasDelta\<close>. Once a line has been decoded:
  \<^verbatim>\<open>if (parsed.message && parsed.message.content) { assistantContent += parsed.message.content;
  hasDelta = true; }\<close>\<close>

definition chat_record :: "string \<times> bool \<Rightarrow> json_record \<Rightarrow> string \<times> bool" where
  "chat_record acc parsed =
     (case message parsed of
        None \<Rightarrow> acc
      | Some m \<Rightarrow>
          if truthy_str (message_content m) then (fst acc @ the (message_content m), True)
          else acc)"

definition chat_line :: "decoder \<Rightarrow> string \<times> bool \<Rightarrow> string \<Rightarrow> string \<times> bool" where
  "chat_line parse acc line =
     (case chat_line_record parse line of
        None \<Rightarrow> acc
      | Some parsed \<Rightarrow> chat_record acc parsed)"

text \<open>\<^verbatim>\<open>updated[updated.length - 1] = { ...updated[updated.length - 1], content: assistantContent }\<close>
  on a copy of the history; on an empty history the assignment adds no element.\<close>

definition update_last :: "chat_message list \<Rightarrow> string \<Rightarrow> chat_message list" where
  "update_last history c =
     (if history = [] then [] else butlast history @ [(last history)\<lparr>content := c\<rparr>])"

text \<open>One turn of the read loop: the buffer's lines are worked off, then the history is
  updated once if any line carried content.\<close>

definition chat_chunk :: "decoder \<Rightarrow> string \<times> app_state \<Rightarrow> string \<Rightarrow> string \<times> app_state" where
  "chat_chunk parse s chunk =
     (case foldl (chat_line parse) (fst s, False) (split_nl chunk) of
        (assistantContent, hasDelta) \<Rightarrow>
          (assistantContent,
           if hasDelta
           then (snd s)\<lparr>chatHistory := update_last (chatHistory (snd s)) assistantContent\<rparr>
           else snd s))"

text \<open>\<^verbatim>\<open>if (!prompt || isStreaming || !selectedModel || !selectedModelInfo) return;\<close>\<close>

definition chat_rejected :: "app_state \<Rightarrow> bool" where
  "chat_rejected st =
     (prompt st = [] \<or> isStreaming st \<or> selectedModel st = [] \<or> selectedModelInfo st = None)"

definition chat_begin :: "app_state \<Rightarrow> app_state" where
  "chat_begin st =
     st\<lparr>chatHistory := chatHistory st @ [\<lparr>role = User, content = prompt st\<rparr>],
        prompt := [], isStreaming := True\<rparr>"

definition chat_request :: "app_state \<Rightarrow> request" where
  "chat_request st =
     PostChat (selectedModel st) (chatHistory st @ [\<lparr>role = User, content = prompt st\<rparr>])"

text \<open>After \<^verbatim>\<open>fetch\<close> has resolved: the empty assistant message is appended.\<close>

definition chat_opened :: "app_state \<Rightarrow> app_state" where
  "chat_opened st = st\<lparr>chatHistory := chatHistory st @ [\<lparr>role = Assistant, content = []\<rparr>]\<rparr>"

definition chat_catch :: "app_state \<Rightarrow> app_state" where
  "chat_catch st =
     st\<lparr>chatHistory := chatHistory st
           @ [\<lparr>role = Assistant, content = ''Sorry, I encountered an error.''\<rparr>]\<rparr>"

definition chat_finally :: "app_state \<Rightarrow> app_state" where
  "chat_finally st = st\<lparr>isStreaming := False\<rparr>"

text \<open>\<^verbatim>\<open>handleChatSubmit\<close> from submission to the end of its \<^verbatim>\<open>finally\<close> block, with the
  requests it issued.\<close>

definition handleChatSubmit ::
  "decoder \<Rightarrow> fetch_result \<Rightarrow> app_state \<Rightarrow> app_state \<times> request list" where
  "handleChatSubmit parse net st =
     (if chat_rejected st then (st, [])
      else
        (case net of
           FetchError \<Rightarrow> (chat_finally (chat_catch (chat_begin st)), [chat_request st])
         | Response chunks e \<Rightarrow>
             (case foldl (chat_chunk parse) ([], chat_opened (chat_begin st)) chunks of
                (assistantContent, st') \<Rightarrow>
                  (case e of
                     Done \<Rightarrow> (chat_finally st', [chat_request st])
                   | Failed \<Rightarrow> (chat_finally (chat_catch st'), [chat_request st])))))"


section \<open>The admission guard\<close>




section \<open>The stats server\<close>

text \<open>\<^verbatim>\<open>stats_server.py\<close>. Python text is modelled as \<open>string\<close>, a \<open>char\<close> standing for a code
  point below 256. Among these, \<^verbatim>\<open>str.strip\<close> removes the characters of \<open>py_space\<close> and
  \<^verbatim>\<open>\d\<close> matches the ten ASCII digits.\<close>

definition py_space :: "char \<Rightarrow> bool" where
  "py_space c = (of_char c \<in> {9::nat, 10, 11, 12, 13, 28, 29, 30, 31, 32, 133, 160})"

definition strip :: "string \<Rightarrow> string" where
  "strip s = rev (dropWhile py_space (rev (dropWhile py_space s)))"

fun strip_prefix :: "string \<Rightarrow> string \<Rightarrow> string option" where
  "strip_prefix [] s = Some s"
| "strip_prefix (p # ps) [] = None"
| "strip_prefix (p # ps) (c # cs) = (if p = c then strip_prefix ps cs else None)"

text \<open>\<^verbatim>\<open>int(s)\<close> on a text of digits, of any length (the limit of 4300 digits that
  CPython 3.11 introduced is not modelled).\<close>

definition int_of_digits :: "string \<Rightarrow> nat" where
  "int_of_digits s = foldl (\<lambda>n c. 10 * n + digit_val c) 0 s"

text \<open>\<^verbatim>\<open>re.search\<close>: the match at the leftmost position that has one. The patterns of
  \<^verbatim>\<open>parse_tegrastats\<close> have at most one match at a position (a greedy \<^verbatim>\<open>\d+\<close> is followed by a
  character that is no digit, the lazy \<^verbatim>\<open>.*?\<close> by the first \<^verbatim>\<open>]\<close>), so a pattern is modelled by
  a function that gives the groups of the match at the head of a text.\<close>

fun re_search :: "(string \<Rightarrow> 'a option) \<Rightarrow> string \<Rightarrow> 'a option" where
  "re_search pat [] = pat []"
| "re_search pat (c # cs) = (case pat (c # cs) of Some g \<Rightarrow> Some g | None \<Rightarrow> re_search pat cs)"

declare re_search.simps [simp del]

text \<open>\<^verbatim>\<open>RAM (\d+)/(\d+)MB\<close>\<close>

definition ram_at :: "string \<Rightarrow> (string \<times> string) option" where
  "ram_at s =
     (case strip_prefix ''RAM '' s of
        None \<Rightarrow> None
      | Some r1 \<Rightarrow>
          (let used = takeWhile is_digit r1 in
           if used = [] then None
           else
             (case strip_prefix ''/'' (dropWhile is_digit r1) of
                None \<Rightarrow> None
              | Some r2 \<Rightarrow>
                  (let tot = takeWhile is_digit r2 in
                   if tot = [] then None
                   else
                     (case strip_prefix ''MB'' (dropWhile is_digit r2) of
                        None \<Rightarrow> None
                      | Some _ \<Rightarrow> Some (used, tot))))))"

text \<open>\<^verbatim>\<open>CPU \[(.*?)\]\<close>; the dot matches no newline.\<close>

definition cpu_at :: "string \<Rightarrow> string option" where
  "cpu_at s =
     (case strip_prefix ''CPU ['' s of
        None \<Rightarrow> None
      | Some r \<Rightarrow>
          (let g = takeWhile (\<lambda>c. c \<noteq> CHR '']'') r in
           if nl \<in> set g \<or> dropWhile (\<lambda>c. c \<noteq> CHR '']'') r = [] then None else Some g))"

text \<open>\<^verbatim>\<open>(\d+)%@\d+\<close>: the group, and the text after the match.\<close>

definition core_at :: "string \<Rightarrow> (string \<times> string) option" where
  "core_at s =
     (let p = takeWhile is_digit s in
      if p = [] then None
      else
        (case strip_prefix ''%@'' (dropWhile is_digit s) of
           None \<Rightarrow> None
         | Some r \<Rightarrow>
             if takeWhile is_digit r = [] then None else Some (p, dropWhile is_digit r)))"

text \<open>\<^verbatim>\<open>re.findall(r"(\d+)%@\d+", ...)\<close>: the matches from left to right, each search
  starting where the match before ended.\<close>

function findall_cores :: "string \<Rightarrow> string list" where
  "findall_cores [] = []"
| "findall_cores (c # cs) =
     (case core_at (c # cs) of
        None \<Rightarrow> findall_cores cs
      | Some (p, rest) \<Rightarrow> p # findall_cores rest)"
  by pat_completeness auto
termination
proof (relation "measure length")
  fix c :: char and cs :: string and x2 :: "string \<times> string" and p rest :: string
  assume a: "core_at (c # cs) = Some x2" "(p, rest) = x2"
  have sp: "length r \<le> length s" if "strip_prefix q s = Some r" for q s r
    using that by (induction q s rule: strip_prefix.induct) (auto split: if_splits)
  have dw: "length (dropWhile is_digit s) \<le> length s" for s :: string
    by (rule length_dropWhile_le)
  from a obtain r where r: "strip_prefix ''%@'' (dropWhile is_digit (c # cs)) = Some r"
    and rest: "rest = dropWhile is_digit r" and ne: "takeWhile is_digit (c # cs) \<noteq> []"
    by (auto simp: core_at_def Let_def split: if_splits option.splits)
  have "length (takeWhile is_digit (c # cs)) + length (dropWhile is_digit (c # cs)) = length (c # cs)"
    by (metis length_append takeWhile_dropWhile_id)
  with ne have "length (dropWhile is_digit (c # cs)) < length (c # cs)"
    by (cases "takeWhile is_digit (c # cs)") auto
  with sp[OF r] dw[of r] rest show "(rest, c # cs) \<in> measure length" by simp
qed auto

declare findall_cores.simps [simp del]

text \<open>\<^verbatim>\<open>GR3D_FREQ (\d+)%@\d+\<close>\<close>

definition gpu_at :: "string \<Rightarrow> string option" where
  "gpu_at s =
     (case strip_prefix ''GR3D_FREQ '' s of
        None \<Rightarrow> None
      | Some r \<Rightarrow> map_option fst (core_at r))"

text \<open>\<^verbatim>\<open>SOC_TEMP (\d+\.\d+)C\<close>: the digits before and after the point.\<close>

definition temp_at :: "string \<Rightarrow> (string \<times> string) option" where
  "temp_at s =
     (case strip_prefix ''SOC_TEMP '' s of
        None \<Rightarrow> None
      | Some r1 \<Rightarrow>
          (let whole = takeWhile is_digit r1 in
           if whole = [] then None
           else
             (case strip_prefix ''.'' (dropWhile is_digit r1) of
                None \<Rightarrow> None
              | Some r2 \<Rightarrow>
                  (let frac = takeWhile is_digit r2 in
                   if frac = [] then None
                   else
                     (case strip_prefix ''C'' (dropWhile is_digit r2) of
                        None \<Rightarrow> None
                      | Some _ \<Rightarrow> Some (whole, frac))))))"

datatype py_error = ZeroDivisionError | OverflowError

text \<open>\<^verbatim>\<open>a / b\<close> on Python integers: the quotient rounded to binary64. When the quotient
  is at or beyond the midpoint between the largest binary64 value, \<open>2^1024 - 2^971\<close>, and
  \<open>2^1024\<close>, so that it does not round to a binary64 value, Python raises
  \<^verbatim>\<open>OverflowError: integer division result too large for a float\<close>.\<close>

definition fits_float :: "nat \<Rightarrow> nat \<Rightarrow> bool" where
  "fits_float a b = (a < (2 ^ 1024 - 2 ^ 970) * b)"

definition py_truediv :: "nat \<Rightarrow> nat \<Rightarrow> py_error + rat" where
  "py_truediv a b =
     (if b = 0 then Inl ZeroDivisionError
      else if \<not> fits_float a b then Inl OverflowError
      else Inr (fl64 (of_nat a / of_nat b)))"

text \<open>\<^verbatim>\<open>round(x, 2)\<close> on a float: the exact value of \<open>x\<close> rounded to two decimals, ties to
  the even digit, and the binary64 value nearest to that decimal.\<close>

definition py_round2 :: "rat \<Rightarrow> rat" where
  "py_round2 x = fl64 (of_int (round_half_even (x * 100)) / 100)"

text \<open>\<^verbatim>\<open>float(s)\<close> on digits, a point and digits: the binary64 value nearest to the decimal
  (for a decimal within the binary64 range).\<close>

definition py_float :: "string \<times> string \<Rightarrow> rat" where
  "py_float d =
     fl64 (of_nat (int_of_digits (fst d @ snd d)) / 10 ^ length (snd d))"

definition empty_stats :: system_stats where
  "empty_stats =
     \<lparr>ram_used_mb = None, ram_total_mb = None, ram_used_gb = None, ram_total_gb = None,
      cpu_usage_percent = None, gpu_usage_percent = None, soc_temp_c = None\<rparr>"

definition parse_ram :: "string \<Rightarrow> system_stats \<Rightarrow> py_error + system_stats" where
  "parse_ram line stats =
     (case re_search ram_at line of
        None \<Rightarrow> Inr stats
      | Some (used, tot) \<Rightarrow>
          (case py_truediv (int_of_digits used) 1024 of
             Inl e \<Rightarrow> Inl e
           | Inr used_gb \<Rightarrow>
               (case py_truediv (int_of_digits tot) 1024 of
                  Inl e \<Rightarrow> Inl e
                | Inr total_gb \<Rightarrow>
                    Inr (stats\<lparr>ram_used_mb := Some (int_of_digits used),
                               ram_total_mb := Some (int_of_digits tot),
                               ram_used_gb := Some (py_round2 used_gb),
                               ram_total_gb := Some (py_round2 total_gb)\<rparr>))))"

definition parse_cpu :: "string \<Rightarrow> system_stats \<Rightarrow> py_error + system_stats" where
  "parse_cpu line stats =
     (case re_search cpu_at line of
        None \<Rightarrow> Inr stats
      | Some g \<Rightarrow>
          (let cpu_cores = findall_cores g in
           if cpu_cores = [] then Inr stats
           else
             (case py_truediv (sum_list (map int_of_digits cpu_cores)) (length cpu_cores) of
                Inl e \<Rightarrow> Inl e
              | Inr avg \<Rightarrow> Inr (stats\<lparr>cpu_usage_percent := Some (py_round2 avg)\<rparr>))))"

definition parse_gpu :: "string \<Rightarrow> system_stats \<Rightarrow> system_stats" where
  "parse_gpu line stats =
     (case re_search gpu_at line of
        None \<Rightarrow> stats
      | Some p \<Rightarrow> stats\<lparr>gpu_usage_percent := Some (int_of_digits p)\<rparr>)"

definition parse_temp :: "string \<Rightarrow> system_stats \<Rightarrow> system_stats" where
  "parse_temp line stats =
     (case re_search temp_at line of
        None \<Rightarrow> stats
      | Some d \<Rightarrow> stats\<lparr>soc_temp_c := Some (py_float d)\<rparr>)"

definition parse_tegrastats :: "string \<Rightarrow> py_error + system_stats" where
  "parse_tegrastats line =
     (case parse_ram line empty_stats of
        Inl e \<Rightarrow> Inl e
      | Inr stats1 \<Rightarrow>
          (case parse_cpu line stats1 of
             Inl e \<Rightarrow> Inl e
           | Inr stats2 \<Rightarrow> Inr (parse_temp line (parse_gpu line stats2))))"

text \<open>What \<^verbatim>\<open>subprocess.run(['tegrastats', ...], capture_output=True, text=True, check=True)\<close>
  does: the command is not found, it exits with a non-zero status, another exception is
  raised, or it completes with its standard output. The text carried by an exception is its
  \<^verbatim>\<open>str(e)\<close>.\<close>

datatype run_result =
    FileNotFoundError
  | CalledProcessError string
  | OtherException string
  | CompletedProcess string

definition str_of_error :: "py_error \<Rightarrow> string" where
  "str_of_error e =
     (case e of
        ZeroDivisionError \<Rightarrow> ''division by zero''
      | OverflowError \<Rightarrow> ''integer division result too large for a float'')"

text \<open>A response of the endpoint: the JSON body, either the sample or an object with
  \<^verbatim>\<open>error\<close> and at most one more key, and the HTTP status.\<close>

datatype json_body = StatsBody system_stats | ErrorBody string "(string \<times> string) option"

definition get_system_stats :: "run_result \<Rightarrow> json_body \<times> nat" where
  "get_system_stats run =
     (case run of
        CompletedProcess out \<Rightarrow>
          (let output_line = strip out in
           (case parse_tegrastats output_line of
              Inl e \<Rightarrow>
                (ErrorBody ''An unexpected error occurred'' (Some (''details'', str_of_error e)),
                 500)
            | Inr parsed_stats \<Rightarrow>
                if parsed_stats = empty_stats
                then (ErrorBody ''Failed to parse tegrastats output'' (Some (''raw'', output_line)),
                      500)
                else (StatsBody parsed_stats, 200)))
      | FileNotFoundError \<Rightarrow>
          (ErrorBody
             (CHR 0x27 # ''tegrastats'' @ CHR 0x27
                # '' command not found. Are you running this on a Jetson device?'')
             None,
           500)
      | CalledProcessError d \<Rightarrow> (ErrorBody ''Error running tegrastats'' (Some (''details'', d)), 500)
      | OtherException d \<Rightarrow>
          (ErrorBody ''An unexpected error occurred'' (Some (''details'', d)), 500))"


section \<open>Streams in flight\<close>

text \<open>
  A handler is an \<^verbatim>\<open>async\<close> function: between its \<^verbatim>\<open>await\<close>s other events of the page run.
  To speak about what is in flight, the application is also modelled event by event. A task
  is a handler that has been started and has not yet left its \<^verbatim>\<open>finally\<close> block: a chat
  handler waiting for \<^verbatim>\<open>fetch\<close>, a chat handler in its read loop (with its local
  \<^verbatim>\<open>assistantContent\<close>), or a pull handler.
\<close>

datatype task = ChatFetching | ChatReading string | Pulling

record system =
  app :: app_state
  tasks :: "task list"

text \<open>
  The events: the user edits the prompt, selects a model or edits the name of the model to
  pull; the chat form or the pull form is submitted; the network answers the task at a
  position of the task list: \<^verbatim>\<open>fetch\<close> resolves, a buffer arrives, the stream ends (\<open>Done\<close>)
  or \<^verbatim>\<open>fetch\<close> or a read rejects (\<open>Failed\<close>).
\<close>

datatype event =
    TypePrompt string
  | SelectModel string "model_info option"
  | TypePullName string
  | SubmitChat
  | SubmitPull
  | Resolved nat
  | Chunk nat string
  | Ended nat stream_end

definition task_at :: "system \<Rightarrow> nat \<Rightarrow> task option" where
  "task_at s i = (if i < length (tasks s) then Some (tasks s ! i) else None)"

definition drop_task :: "nat \<Rightarrow> task list \<Rightarrow> task list" where
  "drop_task i ts = take i ts @ drop (Suc i) ts"

text \<open>
  \<open>SubmitChat\<close> runs \<^verbatim>\<open>handleChatSubmit\<close> up to its first \<^verbatim>\<open>await\<close>. \<open>SubmitPull\<close> is the
  submission of the pull form: its button carries \<^verbatim>\<open>disabled={isStreaming}\<close>, and a form whose
  submit button is disabled is not submitted; then \<^verbatim>\<open>handlePullModel\<close> runs up to its first
  \<^verbatim>\<open>await\<close>. The other cases continue a handler where it was waiting; an event for a task
  that is not waiting for it changes nothing.
\<close>

definition step :: "decoder \<Rightarrow> system \<Rightarrow> event \<Rightarrow> system" where
  "step parse s ev =
     (case ev of
        TypePrompt p \<Rightarrow> s\<lparr>app := (app s)\<lparr>prompt := p\<rparr>\<rparr>
      | SelectModel n info \<Rightarrow> s\<lparr>app := (app s)\<lparr>selectedModel := n, selectedModelInfo := info\<rparr>\<rparr>
      | TypePullName n \<Rightarrow> s\<lparr>app := (app s)\<lparr>pullModelName := n\<rparr>\<rparr>
      | SubmitChat \<Rightarrow>
          if chat_rejected (app s) then s
          else s\<lparr>app := chat_begin (app s), tasks := tasks s @ [ChatFetching]\<rparr>
      | SubmitPull \<Rightarrow>
          if isStreaming (app s) \<or> pullModelName (app s) = [] then s
          else s\<lparr>app := pull_begin (app s), tasks := tasks s @ [Pulling]\<rparr>
      | Resolved i \<Rightarrow>
          (case task_at s i of
             Some ChatFetching \<Rightarrow>
               s\<lparr>app := chat_opened (app s), tasks := (tasks s)[i := ChatReading []]\<rparr>
           | _ \<Rightarrow> s)
      | Chunk i chunk \<Rightarrow>
          (case task_at s i of
             Some (ChatReading assistantContent) \<Rightarrow>
               (case chat_chunk parse (assistantContent, app s) chunk of
                  (assistantContent', st') \<Rightarrow>
                    s\<lparr>app := st', tasks := (tasks s)[i := ChatReading assistantContent']\<rparr>)
           | Some Pulling \<Rightarrow>
               (case pull_chunk parse (app s) chunk of
                  (st', Completed) \<Rightarrow> s\<lparr>app := st'\<rparr>
                | (st', Aborted) \<Rightarrow>
                    s\<lparr>app := pull_finally (pull_catch st'), tasks := drop_task i (tasks s)\<rparr>)
           | _ \<Rightarrow> s)
      | Ended i e \<Rightarrow>
          (case (task_at s i, e) of
             (Some ChatFetching, Failed) \<Rightarrow>
               s\<lparr>app := chat_finally (chat_catch (app s)), tasks := drop_task i (tasks s)\<rparr>
           | (Some (ChatReading _), Failed) \<Rightarrow>
               s\<lparr>app := chat_finally (chat_catch (app s)), tasks := drop_task i (tasks s)\<rparr>
           | (Some (ChatReading _), Done) \<Rightarrow>
               s\<lparr>app := chat_finally (app s), tasks := drop_task i (tasks s)\<rparr>
           | (Some Pulling, Failed) \<Rightarrow>
               s\<lparr>app := pull_finally (pull_catch (app s)), tasks := drop_task i (tasks s)\<rparr>
           | (Some Pulling, Done) \<Rightarrow>
               s\<lparr>app := pull_finally (pull_success (app s)), tasks := drop_task i (tasks s)\<rparr>
           | _ \<Rightarrow> s))"

definition run :: "decoder \<Rightarrow> system \<Rightarrow> event list \<Rightarrow> system" where
  "run parse s evs = foldl (step parse) s evs"

text \<open>The state after the page has loaded: the initial values of the \<^verbatim>\<open>useState\<close> calls,
  nothing in flight.\<close>

definition initial :: system where
  "initial =
     \<lparr>app = \<lparr>systemStats = None, selectedModel = [], selectedModelInfo = None,
             chatHistory = [], prompt = [], isStreaming = False,
             pullModelName = ''gemma:2b'', pullStatus = []\<rparr>,
      tasks = []\<rparr>"

definition is_chat :: "task \<Rightarrow> bool" where
  "is_chat t = (t \<noteq> Pulling)"

definition chat_streams :: "system \<Rightarrow> nat" where
  "chat_streams s = length (filter is_chat (tasks s))"


section \<open>Splitting a stream into buffers\<close>

text \<open>A cut between two pieces of a text is next to a newline when the piece before it
  ends with a newline or the piece after it starts with one (or one of the pieces is empty).
  A sequence of buffers is newline-aligned when every cut between a buffer and the rest of
  the stream is next to a newline: the transport has cut the text only at line ends.\<close>

definition cut_ok :: "string \<Rightarrow> string \<Rightarrow> bool" where
  "cut_ok a b = (a = [] \<or> b = [] \<or> last a = nl \<or> hd b = nl)"

fun newline_aligned :: "string list \<Rightarrow> bool" where
  "newline_aligned [] = True"
| "newline_aligned (c # cs) = (cut_ok c (concat cs) \<and> newline_aligned cs)"


section \<open>An example state\<close>

text \<open>The state after the page has loaded, a model has been selected and the prompt
  \<^verbatim>\<open>hi\<close> has been typed.\<close>

definition ready :: app_state where
  "ready = (app initial)\<lparr>prompt := ''hi'', selectedModel := ''m'',
     selectedModelInfo := Some \<lparr>name = ''m'', model_size = Some 1\<rparr>\<rparr>"



section \<open>One stream at a time\<close>

text \<open>The streaming flag is set exactly while one task is in flight, and nothing is in
  flight while it is not set.\<close>

definition one_stream :: "system \<Rightarrow> bool" where
  "one_stream s = (if isStreaming (app s) then length (tasks s) = 1 else tasks s = [])"



section \<open>Values that fit a float\<close>




section \<open>Example inputs\<close>





section \<open>Evaluation\<close>

lemmas JSON_eval = JSON_parse_def record_of_def message_field_def count_field_def text_field_def
  field_def is_digit_def digit_val_def json_space_def punct_def

lemmas line_eval = nl_def trim_def js_space_def startsWith_brace_def


section \<open>Lines and record sequences\<close>

lemma split_nl_not_Nil: "split_nl s \<noteq> []"
  by (induction s) (auto split: list.splits)

lemma split_nl_append: "split_nl (a @ nl # b) = split_nl a @ split_nl b"
proof (induction a)
  case Nil
  show ?case by simp
next
  case (Cons c a)
  obtain l ls where "split_nl a = l # ls"
    using split_nl_not_Nil [of a] by (cases "split_nl a") auto
  with Cons show ?case by simp
qed

lemma trim_Nil: "trim [] = []"
  by (simp add: trim_def)

lemma chat_line_record_Nil: "chat_line_record parse [] = None"
  by (simp add: chat_line_record_def trim_Nil)

lemma chat_chunk_records_Nil: "chat_chunk_records parse [] = []"
  by (simp add: chat_chunk_records_def List.map_filter_def chat_line_record_Nil)

lemma chat_chunk_records_append:
  "chat_chunk_records parse (a @ nl # b) = chat_chunk_records parse a @ chat_chunk_records parse b"
  by (simp add: chat_chunk_records_def split_nl_append List.map_filter_def)

lemma cut_ok_cases:
  assumes "cut_ok a b"
  obtains "a = []" | "b = []" | a' where "a = a' @ [nl]" | b' where "b = nl # b'"
proof -
  from assms consider "a = []" | "b = []" | "a \<noteq> []" "last a = nl" | "b \<noteq> []" "hd b = nl"
    unfolding cut_ok_def by blast
  then show ?thesis
  proof cases
    case 3
    then have "a = butlast a @ [nl]" by (metis append_butlast_last_id)
    then show ?thesis using that(3) by blast
  next
    case 4
    then have "b = nl # tl b" by (metis list.collapse)
    then show ?thesis using that(4) by blast
  qed (use that in blast)+
qed

lemma chat_chunk_records_cut:
  assumes "cut_ok a b"
  shows "chat_chunk_records parse (a @ b) = chat_chunk_records parse a @ chat_chunk_records parse b"
  using assms
proof (cases rule: cut_ok_cases)
  case (3 a')
  then show ?thesis
    using chat_chunk_records_append [of parse a' b] chat_chunk_records_append [of parse a' "[]"]
    by (simp add: chat_chunk_records_Nil)
next
  case (4 b')
  then show ?thesis
    using chat_chunk_records_append [of parse a b'] chat_chunk_records_append [of parse "[]" b']
    by (simp add: chat_chunk_records_Nil)
qed (simp_all add: chat_chunk_records_Nil)

lemma chat_records_aligned:
  "newline_aligned chunks \<Longrightarrow> chat_records parse chunks = chat_chunk_records parse (concat chunks)"
proof (induction chunks)
  case Nil
  show ?case by (simp add: chat_records_def chat_chunk_records_Nil)
next
  case (Cons c cs)
  then have "chat_records parse cs = chat_chunk_records parse (concat cs)" and "cut_ok c (concat cs)"
    by simp_all
  then show ?case
    using chat_chunk_records_cut [of c "concat cs" parse] by (simp add: chat_records_def)
qed

lemma pull_chunk_lines_Nil: "pull_chunk_lines [] = []"
  by (simp add: pull_chunk_lines_def trim_Nil)

lemma pull_chunk_lines_append:
  "pull_chunk_lines (a @ nl # b) = pull_chunk_lines a @ pull_chunk_lines b"
  by (simp add: pull_chunk_lines_def split_nl_append)

lemma pull_decode_append:
  "pull_decode parse (xs @ ys) =
     (case pull_decode parse xs of
        (rs, Aborted) \<Rightarrow> (rs, Aborted)
      | (rs, Completed) \<Rightarrow> (case pull_decode parse ys of (rs', out) \<Rightarrow> (rs @ rs', out)))"
  by (induction xs) (auto split: option.splits prod.splits pull_outcome.splits)

lemma pull_records_single:
  "pull_records parse [c] = pull_decode parse (pull_chunk_lines c)"
  by (auto split: prod.splits pull_outcome.splits)

lemma pull_chunk_lines_cut:
  assumes "cut_ok a b"
  shows "pull_chunk_lines (a @ b) = pull_chunk_lines a @ pull_chunk_lines b"
  using assms
proof (cases rule: cut_ok_cases)
  case (3 a')
  then show ?thesis
    using pull_chunk_lines_append [of a' b] pull_chunk_lines_append [of a' "[]"]
    by (simp add: pull_chunk_lines_Nil)
next
  case (4 b')
  then show ?thesis
    using pull_chunk_lines_append [of a b'] pull_chunk_lines_append [of "[]" b']
    by (simp add: pull_chunk_lines_Nil)
qed (simp_all add: pull_chunk_lines_Nil)

lemma pull_records_aligned:
  "newline_aligned chunks \<Longrightarrow>
     pull_records parse chunks = pull_decode parse (pull_chunk_lines (concat chunks))"
proof (induction chunks)
  case Nil
  show ?case by (simp add: pull_chunk_lines_Nil)
next
  case (Cons c cs)
  then have ih: "pull_records parse cs = pull_decode parse (pull_chunk_lines (concat cs))"
    and cut: "cut_ok c (concat cs)"
    by simp_all
  show ?case
    using ih by (simp add: pull_chunk_lines_cut [OF cut] pull_decode_append
        split: prod.splits pull_outcome.splits)
qed

lemma foldl_chat_line:
  "foldl (chat_line parse) acc ls = foldl chat_record acc (List.map_filter (chat_line_record parse) ls)"
  by (induction ls arbitrary: acc) (auto simp: chat_line_def List.map_filter_def split: option.splits)

lemma chat_record_flag:
  "chat_record (a, b) r = (fst (chat_record (a, False) r), b \<or> snd (chat_record (a, False) r))"
  by (auto simp: chat_record_def split: option.splits)

lemma foldl_chat_record_flag:
  "foldl chat_record (a, b) rs =
     (fst (foldl chat_record (a, False) rs), b \<or> snd (foldl chat_record (a, False) rs))"
proof (induction rs arbitrary: a b)
  case Nil
  show ?case by simp
next
  case (Cons r rs)
  obtain a' b' where r: "chat_record (a, False) r = (a', b')" by (cases "chat_record (a, False) r")
  have "chat_record (a, b) r = (a', b \<or> b')" using chat_record_flag [of a b r] r by simp
  then show ?case
    using Cons [of a' "b \<or> b'"] Cons [of a' b'] r by auto
qed

lemma foldl_chat_record_no_delta:
  "foldl chat_record (a, False) rs = (a', False) \<Longrightarrow> a' = a"
proof (induction rs arbitrary: a)
  case Nil
  then show ?case by simp
next
  case (Cons r rs)
  obtain a1 b1 where r: "chat_record (a, False) r = (a1, b1)" by (cases "chat_record (a, False) r")
  with Cons.prems foldl_chat_record_flag [of a1 b1 rs] have "\<not> b1" by auto
  with r have "a1 = a" by (auto simp: chat_record_def split: option.splits if_splits)
  with Cons r \<open>\<not> b1\<close> show ?case by simp
qed

lemma update_last_twice: "update_last (update_last h x) y = update_last h y"
  by (simp add: update_last_def)

lemma chat_chunk_eq:
  "chat_chunk parse (acc, st) chunk =
     (case foldl chat_record (acc, False) (chat_chunk_records parse chunk) of
        (acc', d) \<Rightarrow> (acc', if d then st\<lparr>chatHistory := update_last (chatHistory st) acc'\<rparr> else st))"
  by (simp add: chat_chunk_def foldl_chat_line chat_chunk_records_def split: prod.splits)

lemma foldl_chat_chunk:
  "foldl (chat_chunk parse) (acc, st) chunks =
     (case foldl chat_record (acc, False) (chat_records parse chunks) of
        (acc', d) \<Rightarrow> (acc', if d then st\<lparr>chatHistory := update_last (chatHistory st) acc'\<rparr> else st))"
proof (induction chunks arbitrary: acc st)
  case Nil
  show ?case by (simp add: chat_records_def)
next
  case (Cons c cs)
  obtain a1 d1 where c1: "foldl chat_record (acc, False) (chat_chunk_records parse c) = (a1, d1)"
    by (cases "foldl chat_record (acc, False) (chat_chunk_records parse c)")
  obtain a2 d2 where c2: "foldl chat_record (a1, False) (chat_records parse cs) = (a2, d2)"
    by (cases "foldl chat_record (a1, False) (chat_records parse cs)")
  have all: "foldl chat_record (acc, False) (chat_records parse (c # cs)) = (a2, d1 \<or> d2)"
    using c1 c2 foldl_chat_record_flag [of a1 d1 "chat_records parse cs"]
    by (simp add: chat_records_def)
  show ?case
    unfolding all
    using Cons [of a1 "if d1 then st\<lparr>chatHistory := update_last (chatHistory st) a1\<rparr> else st"]
    using foldl_chat_record_no_delta [of a1 "chat_records parse cs" a2]
    by (auto simp: chat_chunk_eq c1 c2 update_last_twice)
qed

lemma pull_lines_decode:
  "pull_lines parse st ls =
     (case pull_decode parse ls of (rs, out) \<Rightarrow> (foldl pull_record st rs, out))"
  by (induction ls arbitrary: st) (auto split: option.splits prod.splits)

lemma pull_chunks_records:
  "pull_chunks parse st chunks =
     (case pull_records parse chunks of (rs, out) \<Rightarrow> (foldl pull_record st rs, out))"
  by (induction chunks arbitrary: st)
     (auto simp: pull_chunk_def pull_lines_decode split: prod.splits pull_outcome.splits)



section \<open>Chunk boundaries (C1)\<close>

text \<open>
  C1 claims that the sequence of decoded records does not depend on how the stream text is
  cut into buffers. Neither handler keeps a partial line between buffers: each buffer is
  split at newlines on its own. A line cut in the middle therefore reaches the decoder as
  two pieces. In the example, the chat handler decodes no record from the two pieces and one
  record from the uncut text; the pull handler is aborted by the first piece and decodes one
  record from the uncut text.
\<close>

theorem mid_line_split_changes_records:
  \<open>chat_records JSON_parse [''{"message":{"con'', ''tent":"hi"}}'' @ [nl]] = []
   \<and> chat_records JSON_parse [''{"message":{"con'' @ ''tent":"hi"}}'' @ [nl]]
       = [\<lparr>message = Some (Message (Some ''hi'')), status = None, total = None,
            completed = None\<rparr>]
   \<and> pull_records JSON_parse [''{"status":"su'', ''ccess"}'' @ [nl]] = ([], Aborted)
   \<and> pull_records JSON_parse [''{"status":"su'' @ ''ccess"}'' @ [nl]]
       = ([\<lparr>message = None, status = Some ''success'', total = None, completed = None\<rparr>],
          Completed)\<close>
  by (simp add: chat_records_def chat_chunk_records_def chat_line_record_def List.map_filter_def
      pull_chunk_lines_def line_eval JSON_eval)

text \<open>
  C1, amended: for every decoder and every newline-aligned sequence of buffers (every cut
  between two buffers is directly after or directly before a newline), both handlers decode
  the same sequence of records from the buffers as from the uncut text delivered in one
  buffer (for the pull handler: the same records up to the first line that fails to decode,
  and the same outcome), and they end in the same state with the same requests.
\<close>

theorem newline_aligned_chunks_decode_alike:
  assumes "newline_aligned chunks"
  shows "chat_records parse chunks = chat_records parse [concat chunks]
       \<and> pull_records parse chunks = pull_records parse [concat chunks]
       \<and> handleChatSubmit parse (Response chunks e) st
           = handleChatSubmit parse (Response [concat chunks] e) st
       \<and> handlePullModel parse (Response chunks e) st
           = handlePullModel parse (Response [concat chunks] e) st"
proof -
  have c: "chat_records parse chunks = chat_records parse [concat chunks]"
    using chat_records_aligned [OF assms, of parse] by (simp add: chat_records_def)
  have p: "pull_records parse chunks = pull_records parse [concat chunks]"
    using pull_records_aligned [OF assms, of parse] pull_records_single [of parse "concat chunks"]
    by simp
  have hc: "handleChatSubmit parse (Response chunks e) st
              = handleChatSubmit parse (Response [concat chunks] e) st"
    unfolding handleChatSubmit_def fetch_result.case foldl_chat_chunk c ..
  have hp: "handlePullModel parse (Response chunks e) st
              = handlePullModel parse (Response [concat chunks] e) st"
    unfolding handlePullModel_def fetch_result.case pull_chunks_records p ..
  from c p hc hp show ?thesis by simp
qed

theorem newline_aligned_chunks_decode_alike_witness:
  \<open>newline_aligned [''{"status":"a"}'' @ [nl], ''{"status":"b"}'' @ [nl]]
   \<and> pull_records JSON_parse [''{"status":"a"}'' @ [nl], ''{"status":"b"}'' @ [nl]]
       = pull_records JSON_parse [concat [''{"status":"a"}'' @ [nl], ''{"status":"b"}'' @ [nl]]]
   \<and> pull_records JSON_parse [''{"status":"a"}'' @ [nl], ''{"status":"b"}'' @ [nl]]
       = ([\<lparr>message = None, status = Some ''a'', total = None, completed = None\<rparr>,
           \<lparr>message = None, status = Some ''b'', total = None, completed = None\<rparr>], Completed)\<close>
proof -
  have a: \<open>newline_aligned [''{"status":"a"}'' @ [nl], ''{"status":"b"}'' @ [nl]]\<close>
    by (simp add: cut_ok_def)
  have v: \<open>pull_records JSON_parse [''{"status":"a"}'' @ [nl], ''{"status":"b"}'' @ [nl]]
       = ([\<lparr>message = None, status = Some ''a'', total = None, completed = None\<rparr>,
           \<lparr>message = None, status = Some ''b'', total = None, completed = None\<rparr>], Completed)\<close>
    by (simp add: pull_chunk_lines_def line_eval JSON_eval)
  from a v newline_aligned_chunks_decode_alike [OF a, of JSON_parse] show ?thesis
    by blast
qed


lemmas chat_eval = handleChatSubmit_def chat_rejected_def chat_begin_def chat_request_def
  chat_opened_def chat_catch_def chat_finally_def chat_chunk_def chat_line_def chat_record_def
  chat_line_record_def update_last_def truthy_str_def

lemmas pull_eval = handlePullModel_def pull_begin_def pull_success_def pull_catch_def
  pull_finally_def pull_chunk_def pull_chunk_lines_def pull_record_def truthy_str_def
  truthy_num_def


section \<open>Malformed lines (C2)\<close>

text \<open>
  C2: a line that fails to decode between two lines that decode is skipped, and both other
  records are decoded. The chat handler does so: its \<^verbatim>\<open>JSON.parse\<close> sits in a \<^verbatim>\<open>try\<close> whose
  \<^verbatim>\<open>catch\<close> is commented \<^verbatim>\<open>ignore malformed\<close>. The pull handler has no such \<^verbatim>\<open>try\<close>: on the
  stream below it decodes the first record, is aborted by the second line, never reaches the
  third, and ends with the status of a failed pull. On the same kind of stream the chat
  handler decodes both records.
\<close>

theorem pull_aborted_by_malformed_line:
  \<open>pull_records JSON_parse
      [''{"status":"a"}'' @ [nl] @ ''{oops'' @ [nl] @ ''{"status":"b"}'' @ [nl]]
     = ([\<lparr>message = None, status = Some ''a'', total = None, completed = None\<rparr>], Aborted)
   \<and> handlePullModel JSON_parse
        (Response [''{"status":"a"}'' @ [nl] @ ''{oops'' @ [nl] @ ''{"status":"b"}'' @ [nl]] Done)
        (app initial)
     = ((app initial)\<lparr>pullStatus := ''Error pulling model.''\<rparr>, [PostPull ''gemma:2b''])
   \<and> chat_records JSON_parse
        [''{"message":{"content":"a"}}'' @ [nl] @ ''{oops'' @ [nl]
           @ ''{"message":{"content":"b"}}'' @ [nl]]
     = [\<lparr>message = Some (Message (Some ''a'')), status = None, total = None, completed = None\<rparr>,
        \<lparr>message = Some (Message (Some ''b'')), status = None, total = None, completed = None\<rparr>]\<close>
  by (simp add: pull_eval initial_def chat_records_def chat_chunk_records_def chat_line_record_def
      List.map_filter_def line_eval JSON_eval)


text \<open>The chat handler skips a line it cannot decode, for every decoder.\<close>

lemma chat_skips_malformed_line:
  assumes "nl \<notin> set l2" and "chat_line_record parse l2 = None"
  shows "chat_chunk_records parse (l1 @ nl # l2 @ nl # l3)
       = chat_chunk_records parse l1 @ chat_chunk_records parse l3"
proof -
  have "split_nl l2 = [l2]" using assms(1)
    by (induction l2) (auto split: list.splits)
  then have "chat_chunk_records parse l2 = []"
    using assms(2) by (simp add: chat_chunk_records_def List.map_filter_def)
  then show ?thesis
    using chat_chunk_records_append [of parse l1 "l2 @ nl # l3"]
      chat_chunk_records_append [of parse l2 l3]
    by simp
qed


section \<open>Transport failure of a chat (C4)\<close>

text \<open>
  C4 claims that after a failure in mid-stream the content accumulated so far is discarded
  in favour of the error text. The \<^verbatim>\<open>catch\<close> block of \<^verbatim>\<open>handleChatSubmit\<close> appends the error
  message to the history and touches nothing else: in the example the assistant message with
  the partial content \<^verbatim>\<open>Hel\<close> is still in the history, before the error message.
\<close>

theorem failed_chat_keeps_partial_content:
  \<open>chatHistory (fst (handleChatSubmit JSON_parse
       (Response [''{"message":{"content":"Hel"}}'' @ [nl]] Failed) ready))
     = [\<lparr>role = User, content = ''hi''\<rparr>,
        \<lparr>role = Assistant, content = ''Hel''\<rparr>,
        \<lparr>role = Assistant, content = ''Sorry, I encountered an error.''\<rparr>]\<close>
  by (simp add: ready_def initial_def chat_eval line_eval JSON_eval)

lemma update_last_snoc: "update_last (h @ [m]) c = h @ [m\<lparr>content := c\<rparr>]"
  by (simp add: update_last_def)

lemma chat_history_done:
  assumes "\<not> chat_rejected st"
  shows "chatHistory (fst (handleChatSubmit parse (Response chunks Done) st))
     = chatHistory st @ [\<lparr>role = User, content = prompt st\<rparr>,
         \<lparr>role = Assistant, content = fst (foldl chat_record ([], False) (chat_records parse chunks))\<rparr>]"
proof -
  obtain a d where f: "foldl chat_record ([], False) (chat_records parse chunks) = (a, d)"
    by (cases "foldl chat_record ([], False) (chat_records parse chunks)")
  have "\<not> d \<Longrightarrow> a = []" using foldl_chat_record_no_delta [of "[]" _ a] f by simp
  moreover have "update_last (chatHistory st @ [\<lparr>role = User, content = prompt st\<rparr>,
      \<lparr>role = Assistant, content = []\<rparr>]) a
    = chatHistory st @ [\<lparr>role = User, content = prompt st\<rparr>, \<lparr>role = Assistant, content = a\<rparr>]"
    using update_last_snoc [of "chatHistory st @ [\<lparr>role = User, content = prompt st\<rparr>]"
        "\<lparr>role = Assistant, content = []\<rparr>" a]
    by simp
  ultimately show ?thesis
    using assms
    by (auto simp: handleChatSubmit_def foldl_chat_chunk f chat_finally_def chat_opened_def
        chat_begin_def)
qed


text \<open>
  C4, amended: when a chat that was accepted fails, the handler appends exactly one assistant
  message with the error text. After a failure in mid-stream the history is the history
  before the submission, the user's message, the assistant message with all the content
  received before the failure, and the error message; when \<^verbatim>\<open>fetch\<close> itself fails it is the
  history before the submission, the user's message and the error message.
\<close>

theorem failed_chat_appends_error_message:
  assumes "\<not> chat_rejected st"
  shows "chatHistory (fst (handleChatSubmit parse (Response chunks Failed) st))
     = chatHistory st @ [\<lparr>role = User, content = prompt st\<rparr>,
         \<lparr>role = Assistant, content = fst (foldl chat_record ([], False) (chat_records parse chunks))\<rparr>,
         \<lparr>role = Assistant, content = ''Sorry, I encountered an error.''\<rparr>]
   \<and> chatHistory (fst (handleChatSubmit parse FetchError st))
     = chatHistory st @ [\<lparr>role = User, content = prompt st\<rparr>,
         \<lparr>role = Assistant, content = ''Sorry, I encountered an error.''\<rparr>]"
proof -
  have "chatHistory (fst (handleChatSubmit parse (Response chunks Failed) st))
      = chatHistory (fst (handleChatSubmit parse (Response chunks Done) st))
        @ [\<lparr>role = Assistant, content = ''Sorry, I encountered an error.''\<rparr>]"
    using assms
    by (simp add: handleChatSubmit_def chat_finally_def chat_catch_def split: prod.splits)
  moreover have "chatHistory (fst (handleChatSubmit parse FetchError st))
     = chatHistory st @ [\<lparr>role = User, content = prompt st\<rparr>,
         \<lparr>role = Assistant, content = ''Sorry, I encountered an error.''\<rparr>]"
    using assms
    by (simp add: handleChatSubmit_def chat_finally_def chat_catch_def chat_begin_def)
  ultimately show ?thesis using chat_history_done [OF assms, of parse chunks] by simp
qed

theorem failed_chat_appends_error_message_witness:
  \<open>\<not> chat_rejected ready
   \<and> chatHistory (fst (handleChatSubmit JSON_parse
        (Response [''{"message":{"content":"Hel"}}'' @ [nl], ''{"message":{"content":"lo"}}'' @ [nl]]
           Failed) ready))
     = [\<lparr>role = User, content = ''hi''\<rparr>,
        \<lparr>role = Assistant, content = ''Hello''\<rparr>,
        \<lparr>role = Assistant, content = ''Sorry, I encountered an error.''\<rparr>]\<close>
proof -
  have r: "\<not> chat_rejected ready"
    by (simp add: ready_def initial_def chat_rejected_def)
  have v: \<open>fst (foldl chat_record ([], False) (chat_records JSON_parse
      [''{"message":{"content":"Hel"}}'' @ [nl], ''{"message":{"content":"lo"}}'' @ [nl]])) = ''Hello''\<close>
    by (simp add: chat_records_def chat_chunk_records_def chat_line_record_def chat_record_def
        truthy_str_def List.map_filter_def line_eval JSON_eval)
  have p: "chatHistory ready = []" "prompt ready = ''hi''"
    by (simp_all add: ready_def initial_def)
  from failed_chat_appends_error_message [OF r, of JSON_parse
      \<open>[''{"message":{"content":"Hel"}}'' @ [nl], ''{"message":{"content":"lo"}}'' @ [nl]]\<close>]
    r v p
  show ?thesis by simp
qed


section \<open>Binary64 rounding\<close>

text \<open>The rounding \<open>fl64\<close> changes a value by at most one part in \<open>2^53\<close>, and it does not
  change an integer below \<open>2^53\<close> divided by a power of two.\<close>

lemma bitlen_bounds:
  "0 < n \<Longrightarrow> 2 ^ (bitlen n - 1) \<le> n \<and> n < 2 ^ bitlen n"
proof (induction n rule: bitlen.induct)
  case (1 n)
  show ?case
  proof (cases "n = 1")
    case True
    then show ?thesis by (simp add: bitlen.simps)
  next
    case False
    with 1 have h: "0 < n div 2" by simp
    with 1 have ih: "2 ^ (bitlen (n div 2) - 1) \<le> n div 2" "n div 2 < 2 ^ bitlen (n div 2)"
      by simp_all
    have b: "bitlen n = Suc (bitlen (n div 2))" using 1 by (simp add: bitlen.simps)
    have p: "0 < bitlen (n div 2)" using h by (simp add: bitlen.simps)
    then obtain k where k: "bitlen (n div 2) = Suc k" by (cases "bitlen (n div 2)") auto
    from ih k have "2 * 2 ^ k \<le> n" "n < 2 * 2 ^ Suc k" by simp_all
    then show ?thesis by (simp add: b k)
  qed
qed

lemma pow2_pos: "0 < pow2 e"
  by (simp add: pow2_def)

lemma pow2_add: "pow2 (a + b) = pow2 a * pow2 b"
proof -
  have "pow2 e = 2 powi e" for e
    by (simp add: pow2_def power_int_def inverse_eq_divide power_one_over)
  then show ?thesis by (simp add: power_int_add)
qed

lemma pow2_Suc: "pow2 (e + 1) = 2 * pow2 e"
  using pow2_add [of e 1] by (simp add: pow2_def)

lemma pow2_nat: "pow2 (int k) = 2 ^ k"
  by (simp add: pow2_def)

lemma pow2_neg_nat: "pow2 (- int k) = 1 / 2 ^ k"
  by (cases k) (simp_all add: pow2_def nat_add_distrib)

lemma ilog2_bounds:
  assumes "0 < q"
  shows "pow2 (ilog2 q) \<le> q \<and> q < pow2 (ilog2 q + 1)"
proof (cases "1 \<le> q")
  case True
  then have f: "0 < \<lfloor>q\<rfloor>" by simp
  from bitlen_bounds [OF f] have b: "2 ^ (bitlen \<lfloor>q\<rfloor> - 1) \<le> \<lfloor>q\<rfloor>" "\<lfloor>q\<rfloor> < 2 ^ bitlen \<lfloor>q\<rfloor>"
    by simp_all
  have p: "0 < bitlen \<lfloor>q\<rfloor>" using f by (simp add: bitlen.simps)
  then obtain k where k: "bitlen \<lfloor>q\<rfloor> = Suc k" by (cases "bitlen \<lfloor>q\<rfloor>") auto
  have i: "ilog2 q = int k" using True by (simp add: ilog2_def k)
  from b k have "(2::int) ^ k \<le> \<lfloor>q\<rfloor>" by simp
  then have "of_int ((2::int) ^ k) \<le> q" using le_floor_iff by blast
  then have lo: "(2::rat) ^ k \<le> q" by simp
  from b k have "\<lfloor>q\<rfloor> < (2::int) ^ Suc k" by simp
  then have "q < of_int ((2::int) ^ Suc k)" using floor_less_iff by blast
  then have hi: "q < (2::rat) ^ Suc k" by simp
  have "pow2 (int k + 1) = 2 ^ Suc k" using pow2_nat [of "Suc k"] by (simp add: add.commute)
  with lo hi show ?thesis by (simp add: i pow2_nat)
next
  case False
  with assms have q1: "1 < 1 / q" by simp
  define m where "m = \<lceil>1 / q\<rceil> - 1"
  have m0: "0 < m" using q1 unfolding m_def by (simp add: less_ceiling_iff)
  from bitlen_bounds [OF m0] have b: "2 ^ (bitlen m - 1) \<le> m" "m < 2 ^ bitlen m"
    by simp_all
  have "0 < bitlen m" using m0 by (simp add: bitlen.simps)
  then obtain k where k: "bitlen m = Suc k" by (cases "bitlen m") auto
  have i: "ilog2 q = - int (Suc k)" using False by (simp add: ilog2_def m_def [symmetric] k)
  from b k have "\<lceil>1 / q\<rceil> \<le> (2::int) ^ Suc k" by (simp add: m_def)
  then have "1 / q \<le> of_int ((2::int) ^ Suc k)" using ceiling_le_iff by blast
  then have "1 / q \<le> (2::rat) ^ Suc k" by simp
  then have "1 \<le> 2 ^ Suc k * q" using assms by (simp add: pos_divide_le_eq mult.commute)
  then have lo: "1 / 2 ^ Suc k \<le> q" by (simp add: pos_divide_le_eq mult.commute)
  from b k have "(2::int) ^ k \<le> m" by simp
  then have "(2::int) ^ k < \<lceil>1 / q\<rceil>" by (simp add: m_def)
  then have "of_int ((2::int) ^ k) < 1 / q" using less_ceiling_iff by blast
  then have "(2::rat) ^ k < 1 / q" by simp
  then have "2 ^ k * q < 1" using assms by (simp add: pos_less_divide_eq)
  then have hi: "q < 1 / 2 ^ k" by (simp add: pos_less_divide_eq mult.commute)
  have "pow2 (- int (Suc k) + 1) = 1 / 2 ^ k" using pow2_neg_nat [of k] by simp
  with lo hi show ?thesis using pow2_neg_nat [of "Suc k"] by (simp add: i)
qed

lemma round_half_even_error: "\<bar>of_int (round_half_even x) - x\<bar> \<le> 1 / 2"
proof -
  have "of_int \<lfloor>x\<rfloor> \<le> x" "x < of_int \<lfloor>x\<rfloor> + 1" by linarith+
  then show ?thesis
    by (auto simp: round_half_even_def Let_def)
qed

lemma fl64_error:
  "\<bar>fl64 q - q\<bar> \<le> \<bar>q\<bar> / 2 ^ 53"
proof (cases "q = 0")
  case True
  then show ?thesis by (simp add: fl64_def)
next
  case False
  define u where "u = pow2 (ilog2 \<bar>q\<bar> - 52)"
  have u0: "0 < u" by (simp add: u_def pow2_pos)
  have f: "fl64 q = of_int (round_half_even (q / u)) * u"
    using False by (simp add: fl64_def u_def Let_def)
  have "fl64 q - q = (of_int (round_half_even (q / u)) - q / u) * u"
    using u0 by (simp add: f algebra_simps)
  then have "\<bar>fl64 q - q\<bar> = \<bar>of_int (round_half_even (q / u)) - q / u\<bar> * u"
    using u0 by (simp add: abs_mult)
  also have "\<dots> \<le> 1 / 2 * u"
    using round_half_even_error [of "q / u"] u0 by (simp add: mult_right_mono)
  finally have e: "\<bar>fl64 q - q\<bar> \<le> u / 2" by simp
  have "pow2 (ilog2 \<bar>q\<bar>) \<le> \<bar>q\<bar>" using ilog2_bounds [of "\<bar>q\<bar>"] False by simp
  moreover have "pow2 (ilog2 \<bar>q\<bar>) = u * 2 ^ 52"
    using pow2_add [of "ilog2 \<bar>q\<bar> - 52" 52] by (simp add: u_def pow2_def)
  ultimately have "u * 2 ^ 52 \<le> \<bar>q\<bar>" by simp
  then have "u / 2 \<le> \<bar>q\<bar> / 2 ^ 53" by simp
  with e show ?thesis by linarith
qed

lemma fl64_upper: "0 \<le> q \<Longrightarrow> q \<le> b \<Longrightarrow> fl64 q \<le> b * (1 + 1 / 2 ^ 53)"
proof -
  assume q: "0 \<le> q" "q \<le> b"
  from fl64_error [of q] q have "\<bar>fl64 q - q\<bar> \<le> q / 2 ^ 53" by simp
  then have "fl64 q \<le> q + q / 2 ^ 53" by linarith
  also have "\<dots> = q * (1 + 1 / 2 ^ 53)" by (simp add: algebra_simps)
  also have "\<dots> \<le> b * (1 + 1 / 2 ^ 53)" using q by (simp add: mult_right_mono)
  finally show ?thesis .
qed

lemma fl64_lower: "0 \<le> b \<Longrightarrow> b \<le> q \<Longrightarrow> b * (1 - 1 / 2 ^ 53) \<le> fl64 q"
proof -
  assume q: "0 \<le> b" "b \<le> q"
  then have q0: "0 \<le> q" by simp
  have "b * (1 - 1 / 2 ^ 53) \<le> q * (1 - 1 / 2 ^ 53)" using q by (simp add: mult_right_mono)
  also have "\<dots> = q - q / 2 ^ 53" by (simp add: algebra_simps)
  also have "\<dots> \<le> fl64 q"
  proof -
    from fl64_error [of q] q0 have "\<bar>fl64 q - q\<bar> \<le> q / 2 ^ 53" by simp
    then show ?thesis by linarith
  qed
  finally show ?thesis .
qed

lemma fl64_nonneg: "0 \<le> q \<Longrightarrow> 0 \<le> fl64 q"
  using fl64_lower [of 0 q] by simp





lemma Math_round_mono: "x \<le> y \<Longrightarrow> Math_round x \<le> Math_round y"
  by (simp add: Math_round_def floor_mono)

lemma js_percent_bounds:
  assumes "0 < c" and "0 < t"
  shows "Math_round (100 * (of_nat c / of_nat t) * (1 - 1 / 2 ^ 50)) \<le> js_percent c t"
    and "js_percent c t \<le> Math_round (100 * (of_nat c / of_nat t) * (1 + 1 / 2 ^ 50))"
proof -
  let ?e = "1 / 2 ^ 53 :: rat"
  let ?c = "of_nat c :: rat" and ?t = "of_nat t :: rat"
  have c0: "0 < ?c" and t0: "0 < ?t" using assms by simp_all
  have C_up: "js_num c \<le> ?c * (1 + ?e)"
    unfolding js_num_def by (rule fl64_upper) (use c0 in simp_all)
  have C_lo: "?c * (1 - ?e) \<le> js_num c"
    unfolding js_num_def by (rule fl64_lower) (use c0 in simp_all)
  have T_up: "js_num t \<le> ?t * (1 + ?e)"
    unfolding js_num_def by (rule fl64_upper) (use t0 in simp_all)
  have T_lo: "?t * (1 - ?e) \<le> js_num t"
    unfolding js_num_def by (rule fl64_lower) (use t0 in simp_all)
  have T_lo0: "0 < ?t * (1 - ?e)" using t0 by simp
  then have T0: "0 < js_num t" using T_lo by linarith
  have C_lo0: "0 \<le> ?c * (1 - ?e)" using c0 by simp
  then have C0: "0 \<le> js_num c" using C_lo by linarith
  have C_up0: "0 \<le> ?c * (1 + ?e)" using c0 by simp
  have q_up: "js_num c / js_num t \<le> ?c * (1 + ?e) / (?t * (1 - ?e))"
    by (rule frac_le [OF C_up0 C_up T_lo0 T_lo])
  have q_lo: "?c * (1 - ?e) / (?t * (1 + ?e)) \<le> js_num c / js_num t"
    by (rule frac_le [OF C0 C_lo T0 T_up])
  have q0: "0 \<le> js_num c / js_num t" using C0 T0 by simp
  have l0: "0 \<le> ?c * (1 - ?e) / (?t * (1 + ?e))" using c0 t0 by simp
  have a_up: "fl64 (js_num c / js_num t) \<le> ?c * (1 + ?e) / (?t * (1 - ?e)) * (1 + ?e)"
    by (rule fl64_upper [OF q0 q_up])
  have a_lo: "?c * (1 - ?e) / (?t * (1 + ?e)) * (1 - ?e) \<le> fl64 (js_num c / js_num t)"
    by (rule fl64_lower [OF l0 q_lo])
  have a0: "0 \<le> fl64 (js_num c / js_num t)" by (rule fl64_nonneg [OF q0])
  have b_up: "fl64 (fl64 (js_num c / js_num t) * 100)
      \<le> ?c * (1 + ?e) / (?t * (1 - ?e)) * (1 + ?e) * 100 * (1 + ?e)"
    by (rule fl64_upper) (use a0 a_up in \<open>simp_all add: mult_right_mono\<close>)
  have b_lo: "?c * (1 - ?e) / (?t * (1 + ?e)) * (1 - ?e) * 100 * (1 - ?e)
      \<le> fl64 (fl64 (js_num c / js_num t) * 100)"
    by (rule fl64_lower) (use l0 a_lo in \<open>simp_all add: mult_right_mono\<close>)
  have x0: "0 \<le> 100 * (?c / ?t)" using c0 t0 by simp
  have "?c * (1 + ?e) / (?t * (1 - ?e)) * (1 + ?e) * 100 * (1 + ?e)
      = 100 * (?c / ?t) * ((1 + ?e) ^ 3 / (1 - ?e))"
    by (simp add: power3_eq_cube)
  also have "\<dots> \<le> 100 * (?c / ?t) * (1 + 1 / 2 ^ 50)"
    by (rule mult_left_mono [OF _ x0]) (simp add: power3_eq_cube)
  finally have up: "fl64 (fl64 (js_num c / js_num t) * 100) \<le> 100 * (?c / ?t) * (1 + 1 / 2 ^ 50)"
    using b_up by linarith
  have "100 * (?c / ?t) * (1 - 1 / 2 ^ 50) \<le> 100 * (?c / ?t) * ((1 - ?e) ^ 3 / (1 + ?e))"
    by (rule mult_left_mono [OF _ x0]) (simp add: power3_eq_cube)
  also have "\<dots> = ?c * (1 - ?e) / (?t * (1 + ?e)) * (1 - ?e) * 100 * (1 - ?e)"
    by (simp add: power3_eq_cube)
  finally have lo: "100 * (?c / ?t) * (1 - 1 / 2 ^ 50) \<le> fl64 (fl64 (js_num c / js_num t) * 100)"
    using b_lo by linarith
  show "Math_round (100 * (of_nat c / of_nat t) * (1 - 1 / 2 ^ 50)) \<le> js_percent c t"
    unfolding js_percent_def by (rule Math_round_mono [OF lo])
  show "js_percent c t \<le> Math_round (100 * (of_nat c / of_nat t) * (1 + 1 / 2 ^ 50))"
    unfolding js_percent_def by (rule Math_round_mono [OF up])
qed

lemma js_percent_range:
  assumes "0 < c" and "c \<le> t"
  shows "0 \<le> js_percent c t \<and> js_percent c t \<le> 100"
proof -
  have t: "0 < t" using assms by simp
  have "(of_nat c :: rat) \<le> of_nat t" using assms by simp
  then have "(of_nat c / of_nat t :: rat) \<le> 1" using t by (simp add: divide_le_eq_1)
  then have x: "(0::rat) \<le> 100 * (of_nat c / of_nat t)" "100 * (of_nat c / of_nat t) \<le> (100::rat)"
    by simp_all
  have "0 \<le> 100 * (of_nat c / of_nat t) * (1 - 1 / 2 ^ 50 :: rat)"
    using x(1) by simp
  then have "0 \<le> Math_round (100 * (of_nat c / of_nat t) * (1 - 1 / 2 ^ 50))"
    by (simp add: Math_round_def)
  with js_percent_bounds(1) [OF assms(1) t] have lo: "0 \<le> js_percent c t" by linarith
  have "100 * (of_nat c / of_nat t) * (1 + 1 / 2 ^ 50 :: rat) \<le> 100 * (1 + 1 / 2 ^ 50)"
    using x(2) by (simp add: mult_right_mono)
  then have "100 * (of_nat c / of_nat t) * (1 + 1 / 2 ^ 50 :: rat) + 1 / 2 < 101"
    by simp
  then have "Math_round (100 * (of_nat c / of_nat t) * (1 + 1 / 2 ^ 50)) < 101"
    unfolding Math_round_def by (simp add: floor_less_iff)
  with js_percent_bounds(2) [OF assms(1) t] have "js_percent c t \<le> 100" by linarith
  with lo show ?thesis by simp
qed

lemma pow2_less_imp: "pow2 a < pow2 b \<Longrightarrow> a < b"
proof (rule ccontr)
  assume l: "pow2 a < pow2 b" and "\<not> a < b"
  then have "b \<le> a" by simp
  then obtain d where d: "a = b + int d" using zle_iff_zadd by auto
  have "pow2 a = pow2 b * 2 ^ d" using pow2_add [of b "int d"] by (simp add: d pow2_nat)
  moreover have "(1::rat) \<le> 2 ^ d" by simp
  ultimately have "pow2 b \<le> pow2 a" using pow2_pos [of b] by (simp add: mult_le_cancel_left1)
  with l show False by simp
qed

lemma round_half_even_of_int: "round_half_even (of_int k) = k"
  by (simp add: round_half_even_def)

lemma fl64_exact_dyadic:
  assumes "0 < m" and "m < 2 ^ 53"
  shows "fl64 (of_int m / 2 ^ k) = of_int m / 2 ^ k"
proof -
  define q :: rat where "q = of_int m / 2 ^ k"
  define e where "e = ilog2 q"
  have q0: "0 < q" using assms(1) by (simp add: q_def)
  from ilog2_bounds [OF q0] have lo: "pow2 e \<le> q" by (simp add: e_def)
  have "(of_int m :: rat) < of_int (2 ^ 53)" using assms(2) by (simp only: of_int_less_iff)
  then have "of_int m < (2::rat) ^ 53" by simp
  then have "q < 2 ^ 53 / 2 ^ k" by (simp add: q_def divide_strict_right_mono)
  also have "\<dots> = pow2 (53 - int k)"
    using pow2_add [of 53 "- int k"] by (simp add: pow2_neg_nat pow2_def)
  finally have "pow2 e < pow2 (53 - int k)" using lo by simp
  then have "e < 53 - int k" by (rule pow2_less_imp)
  then have "0 \<le> 52 - e - int k" by simp
  then obtain n where n: "52 - e - int k = int n"
    using zero_le_imp_eq_int by blast
  have "pow2 (e - 52) * pow2 (52 - e) = 1"
    using pow2_add [of "e - 52" "52 - e"] by (simp add: pow2_def)
  then have inv: "1 / pow2 (e - 52) = pow2 (52 - e)"
    using pow2_pos [of "e - 52"] by (simp add: field_simps)
  have "q / pow2 (e - 52) = q * (1 / pow2 (e - 52))" by simp
  also have "\<dots> = q * pow2 (52 - e)" by (simp only: inv)
  finally have "q / pow2 (e - 52) = q * pow2 (52 - e)" .
  also have "\<dots> = of_int m * (pow2 (- int k) * pow2 (52 - e))"
    by (simp add: q_def pow2_neg_nat)
  also have "pow2 (- int k) * pow2 (52 - e) = pow2 (int n)"
  proof -
    have "- int k + (52 - e) = int n" using n by simp
    then show ?thesis using pow2_add [of "- int k" "52 - e"] by simp
  qed
  finally have i: "q / pow2 (e - 52) = of_int (m * 2 ^ n)" by (simp add: pow2_nat)
  have "fl64 q = of_int (round_half_even (q / pow2 (e - 52))) * pow2 (e - 52)"
    using q0 by (simp add: fl64_def e_def Let_def)
  also have "\<dots> = q / pow2 (e - 52) * pow2 (e - 52)"
    unfolding i round_half_even_of_int ..
  also have "\<dots> = q" using pow2_pos [of "e - 52"] by simp
  finally show ?thesis by (simp add: q_def)
qed

lemma js_num_exact: "n < 2 ^ 53 \<Longrightarrow> js_num n = of_nat n"
proof (cases "n = 0")
  case True
  then show ?thesis by (simp add: js_num_def fl64_def)
next
  case False
  assume "n < 2 ^ 53"
  then have "int n < int (2 ^ 53)" by (simp only: of_nat_less_iff)
  then have "int n < 2 ^ 53" by simp
  with False fl64_exact_dyadic [of "int n" 0] show ?thesis by (simp add: js_num_def)
qed



section \<open>Pull progress (C3)\<close>











section \<open>Zero counts in pull progress (C10)\<close>

text \<open>
  C10: a record in which \<^verbatim>\<open>total\<close> and \<^verbatim>\<open>completed\<close> are both there but one of them is \<open>0\<close> is
  handled as the same record without the two fields: no percentage is computed; a status
  that is there (in the handler's sense: a non-empty text) becomes the status text verbatim;
  with no status, or an empty one, nothing changes.
\<close>

theorem zero_progress_is_status_only:
  assumes "total json = Some t" and "completed json = Some c" and "t = 0 \<or> c = 0"
  shows "pull_record st json = pull_record st (json\<lparr>total := None, completed := None\<rparr>)
       \<and> (\<forall>s. status json = Some s \<and> s \<noteq> [] \<longrightarrow> pull_record st json = st\<lparr>pullStatus := s\<rparr>)
       \<and> (status json = None \<or> status json = Some [] \<longrightarrow> pull_record st json = st)"
  using assms by (auto simp: pull_record_def truthy_num_def truthy_str_def)

theorem zero_progress_is_status_only_witness:
  "pull_record (app initial)
      \<lparr>message = None, status = Some ''pulling manifest'', total = Some 100, completed = Some 0\<rparr>
     = (app initial)\<lparr>pullStatus := ''pulling manifest''\<rparr>
   \<and> pull_record (app initial)
      \<lparr>message = None, status = None, total = Some 0, completed = Some 5\<rparr> = app initial"
proof -
  let ?r = "\<lparr>message = None, status = Some ''pulling manifest'', total = Some 100,
             completed = Some 0\<rparr>"
  let ?q = "\<lparr>message = None, status = None, total = Some 0, completed = Some 5\<rparr>"
  have r: "total ?r = Some 100" "completed ?r = Some 0" "(100::nat) = 0 \<or> (0::nat) = 0"
    by simp_all
  have q: "total ?q = Some 0" "completed ?q = Some 5" "(0::nat) = 0 \<or> (5::nat) = 0"
    by simp_all
  from zero_progress_is_status_only [OF r, of "app initial", THEN conjunct2, THEN conjunct1]
  have 1: "pull_record (app initial) ?r = (app initial)\<lparr>pullStatus := ''pulling manifest''\<rparr>"
    by simp
  from zero_progress_is_status_only [OF q, of "app initial", THEN conjunct2, THEN conjunct2]
  have 2: "pull_record (app initial) ?q = app initial"
    by simp
  from 1 2 show ?thesis by simp
qed


section \<open>Busy state (C9)\<close>

lemma chat_chunk_isStreaming:
  "isStreaming (snd (chat_chunk parse (a, st) c)) = isStreaming st"
  by (simp add: chat_chunk_def split: prod.splits)

lemma pull_record_isStreaming: "isStreaming (pull_record st r) = isStreaming st"
  by (simp add: pull_record_def)

lemma pull_lines_isStreaming: "isStreaming (fst (pull_lines parse st ls)) = isStreaming st"
  by (induction ls arbitrary: st) (auto simp: pull_record_isStreaming split: option.splits)

lemma pull_chunk_isStreaming: "isStreaming (fst (pull_chunk parse st c)) = isStreaming st"
  by (simp add: pull_chunk_def pull_lines_isStreaming)

lemma one_stream_task:
  assumes "one_stream s" and "task_at s i = Some t"
  shows "isStreaming (app s) \<and> i = 0 \<and> tasks s = [t]"
  using assms by (cases "tasks s") (auto simp: one_stream_def task_at_def split: if_splits)

lemma one_stream_step:
  assumes "one_stream s"
  shows "one_stream (step parse s ev)"
proof (cases ev)
  case (TypePrompt p)
  with assms show ?thesis by (simp add: step_def one_stream_def)
next
  case (SelectModel n info)
  with assms show ?thesis by (simp add: step_def one_stream_def)
next
  case (TypePullName n)
  with assms show ?thesis by (simp add: step_def one_stream_def)
next
  case SubmitChat
  with assms show ?thesis
    by (auto simp: step_def one_stream_def chat_rejected_def chat_begin_def split: if_splits)
next
  case SubmitPull
  with assms show ?thesis
    by (auto simp: step_def one_stream_def pull_begin_def split: if_splits)
next
  case (Resolved i)
  show ?thesis
  proof (cases "task_at s i")
    case None
    with Resolved assms show ?thesis by (simp add: step_def)
  next
    case (Some t)
    from one_stream_task [OF assms Some] Resolved Some show ?thesis
      by (cases t) (auto simp: step_def one_stream_def chat_opened_def)
  qed
next
  case (Chunk i c)
  show ?thesis
  proof (cases "task_at s i")
    case None
    with Chunk assms show ?thesis by (simp add: step_def)
  next
    case (Some t)
    note f = one_stream_task [OF assms Some]
    show ?thesis
    proof (cases t)
      case ChatFetching
      with Chunk Some assms show ?thesis by (simp add: step_def)
    next
      case (ChatReading a)
      with Chunk Some f chat_chunk_isStreaming [of parse a "app s" c] show ?thesis
        by (auto simp: step_def one_stream_def split: prod.splits)
    next
      case Pulling
      with Chunk Some f pull_chunk_isStreaming [of parse "app s" c] show ?thesis
        by (auto simp: step_def one_stream_def drop_task_def pull_finally_def
            split: prod.splits pull_outcome.splits)
    qed
  qed
next
  case (Ended i e)
  show ?thesis
  proof (cases "task_at s i")
    case None
    with Ended assms show ?thesis by (simp add: step_def)
  next
    case (Some t)
    from one_stream_task [OF assms Some] Ended Some show ?thesis
      by (cases t; cases e)
         (auto simp: step_def one_stream_def drop_task_def chat_finally_def pull_finally_def)
  qed
qed

lemma one_stream_run: "one_stream s \<Longrightarrow> one_stream (run parse s evs)"
  unfolding run_def by (induction evs arbitrary: s) (auto simp: one_stream_step)

lemma one_stream_initial: "one_stream initial"
  by (simp add: one_stream_def initial_def)


text \<open>The two models agree: the events of one stream, run from a state with nothing in
  flight, end in the state the handler function gives for that stream.\<close>

lemma run_append: "run parse s (xs @ ys) = run parse (run parse s xs) ys"
  by (simp add: run_def)

lemma run_Cons: "run parse s (x # xs) = run parse (step parse s x) xs"
  by (simp add: run_def)

lemma run_Nil: "run parse s [] = s"
  by (simp add: run_def)

lemma run_chat_chunks:
  "run parse \<lparr>app = st, tasks = [ChatReading acc]\<rparr> (map (Chunk 0) chunks)
     = (case foldl (chat_chunk parse) (acc, st) chunks of
          (acc', st') \<Rightarrow> \<lparr>app = st', tasks = [ChatReading acc']\<rparr>)"
proof (induction chunks arbitrary: st acc)
  case Nil
  show ?case by (simp add: run_def)
next
  case (Cons c cs)
  obtain a' s' where c: "chat_chunk parse (acc, st) c = (a', s')"
    by (cases "chat_chunk parse (acc, st) c")
  have "step parse \<lparr>app = st, tasks = [ChatReading acc]\<rparr> (Chunk 0 c)
      = \<lparr>app = s', tasks = [ChatReading a']\<rparr>"
    by (simp add: step_def task_at_def c)
  then show ?case using Cons [of s' a'] by (simp add: run_Cons c)
qed

lemma run_chat_stream:
  assumes "\<not> chat_rejected (app s)" and "tasks s = []"
  shows "run parse s (SubmitChat # Resolved 0 # map (Chunk 0) chunks @ [Ended 0 e])
     = \<lparr>app = fst (handleChatSubmit parse (Response chunks e) (app s)), tasks = []\<rparr>"
proof -
  obtain a' s' where f: "foldl (chat_chunk parse) ([], chat_opened (chat_begin (app s))) chunks = (a', s')"
    by (cases "foldl (chat_chunk parse) ([], chat_opened (chat_begin (app s))) chunks")
  have 1: "step parse s SubmitChat = \<lparr>app = chat_begin (app s), tasks = [ChatFetching]\<rparr>"
    using assms by (simp add: step_def)
  have 2: "step parse \<lparr>app = chat_begin (app s), tasks = [ChatFetching]\<rparr> (Resolved 0)
      = \<lparr>app = chat_opened (chat_begin (app s)), tasks = [ChatReading []]\<rparr>"
    by (simp add: step_def task_at_def)
  have 3: "run parse \<lparr>app = chat_opened (chat_begin (app s)), tasks = [ChatReading []]\<rparr>
      (map (Chunk 0) chunks) = \<lparr>app = s', tasks = [ChatReading a']\<rparr>"
    by (simp add: run_chat_chunks f)
  have 4: "step parse \<lparr>app = s', tasks = [ChatReading a']\<rparr> (Ended 0 Done)
      = \<lparr>app = chat_finally s', tasks = []\<rparr>"
    "step parse \<lparr>app = s', tasks = [ChatReading a']\<rparr> (Ended 0 Failed)
      = \<lparr>app = chat_finally (chat_catch s'), tasks = []\<rparr>"
    by (simp_all add: step_def task_at_def drop_task_def)
  show ?thesis
    using assms(1)
    by (cases e) (simp_all add: run_Cons run_append run_Nil 1 2 3 4 handleChatSubmit_def f)
qed

lemma run_idle_stream_events:
  "run parse \<lparr>app = st, tasks = []\<rparr> (map (Chunk 0) chunks @ [Ended 0 e]) = \<lparr>app = st, tasks = []\<rparr>"
proof (induction chunks)
  case Nil
  show ?case by (cases e) (simp_all add: run_def step_def task_at_def)
next
  case (Cons c cs)
  have "step parse \<lparr>app = st, tasks = []\<rparr> (Chunk 0 c) = \<lparr>app = st, tasks = []\<rparr>"
    by (simp add: step_def task_at_def)
  with Cons show ?case by (simp add: run_Cons)
qed

lemma run_pull_chunks:
  "run parse \<lparr>app = st, tasks = [Pulling]\<rparr> (map (Chunk 0) chunks @ [Ended 0 e])
     = (case pull_chunks parse st chunks of
          (st', Aborted) \<Rightarrow> \<lparr>app = pull_finally (pull_catch st'), tasks = []\<rparr>
        | (st', Completed) \<Rightarrow>
            \<lparr>app = pull_finally (case e of Done \<Rightarrow> pull_success st' | Failed \<Rightarrow> pull_catch st'),
             tasks = []\<rparr>)"
proof (induction chunks arbitrary: st)
  case Nil
  show ?case by (cases e) (simp_all add: run_def step_def task_at_def drop_task_def)
next
  case (Cons c cs)
  obtain s' out where c: "pull_chunk parse st c = (s', out)" by (cases "pull_chunk parse st c")
  show ?case
  proof (cases out)
    case Completed
    then have "step parse \<lparr>app = st, tasks = [Pulling]\<rparr> (Chunk 0 c) = \<lparr>app = s', tasks = [Pulling]\<rparr>"
      by (simp add: step_def task_at_def c)
    then show ?thesis using Cons [of s'] Completed by (simp add: run_Cons c)
  next
    case Aborted
    then have "step parse \<lparr>app = st, tasks = [Pulling]\<rparr> (Chunk 0 c)
        = \<lparr>app = pull_finally (pull_catch s'), tasks = []\<rparr>"
      by (simp add: step_def task_at_def drop_task_def c)
    then show ?thesis
      using run_idle_stream_events [of parse "pull_finally (pull_catch s')" cs e] Aborted
      by (simp add: run_Cons c)
  qed
qed

lemma run_pull_stream:
  assumes "\<not> isStreaming (app s)" and "pullModelName (app s) \<noteq> []" and "tasks s = []"
  shows "run parse s (SubmitPull # map (Chunk 0) chunks @ [Ended 0 e])
     = \<lparr>app = fst (handlePullModel parse (Response chunks e) (app s)), tasks = []\<rparr>"
proof -
  have 1: "step parse s SubmitPull = \<lparr>app = pull_begin (app s), tasks = [Pulling]\<rparr>"
    using assms by (simp add: step_def)
  show ?thesis
    using assms(2)
    by (simp add: run_Cons 1 run_pull_chunks handlePullModel_def
        split: prod.splits pull_outcome.splits stream_end.splits)
qed

text \<open>
  C9: while the streaming flag is set, submitting a chat changes nothing: the handler returns
  the state as it was and issues no request, and in the event model the task in flight is
  untouched. From the initial state, whatever the events, at most one stream is in flight
  at any time, hence at most one chat stream.
\<close>

theorem busy_chat_submit_rejected:
  "(isStreaming st \<longrightarrow> handleChatSubmit parse net st = (st, []))
   \<and> (isStreaming (app s) \<longrightarrow> step parse s SubmitChat = s)
   \<and> length (tasks (run parse initial evs)) \<le> 1
   \<and> chat_streams (run parse initial evs) \<le> 1"
proof -
  have "one_stream (run parse initial evs)"
    by (rule one_stream_run [OF one_stream_initial])
  then have l: "length (tasks (run parse initial evs)) \<le> 1"
    by (simp add: one_stream_def split: if_splits)
  have "chat_streams (run parse initial evs) \<le> length (tasks (run parse initial evs))"
    by (simp add: chat_streams_def)
  with l show ?thesis
    by (simp add: handleChatSubmit_def chat_rejected_def step_def)
qed

lemmas step_eval = run_def step_def task_at_def drop_task_def chat_streams_def is_chat_def

theorem busy_chat_submit_rejected_witness:
  \<open>isStreaming (chat_begin ready)
   \<and> handleChatSubmit JSON_parse (Response [''{"message":{"content":"x"}}''] Done)
       ((chat_begin ready)\<lparr>prompt := ''again''\<rparr>)
     = ((chat_begin ready)\<lparr>prompt := ''again''\<rparr>, [])
   \<and> chat_streams (run JSON_parse initial
        [SelectModel ''m'' (Some \<lparr>name = ''m'', model_size = Some 1\<rparr>), TypePrompt ''hi'',
         SubmitChat, TypePrompt ''again'', SubmitChat]) = 1
   \<and> chatHistory (app (run JSON_parse initial
        [SelectModel ''m'' (Some \<lparr>name = ''m'', model_size = Some 1\<rparr>), TypePrompt ''hi'',
         SubmitChat, TypePrompt ''again'', SubmitChat])) = [\<lparr>role = User, content = ''hi''\<rparr>]\<close>
proof -
  have s: "isStreaming ((chat_begin ready)\<lparr>prompt := ''again''\<rparr>)"
    by (simp add: chat_begin_def)
  have r: \<open>run JSON_parse initial
        [SelectModel ''m'' (Some \<lparr>name = ''m'', model_size = Some 1\<rparr>), TypePrompt ''hi'',
         SubmitChat, TypePrompt ''again'', SubmitChat]
      = \<lparr>app = (chat_begin ready)\<lparr>prompt := ''again''\<rparr>, tasks = [ChatFetching]\<rparr>\<close>
    by (simp add: step_eval initial_def ready_def chat_rejected_def chat_begin_def)
  from busy_chat_submit_rejected [of "(chat_begin ready)\<lparr>prompt := ''again''\<rparr>" JSON_parse
      \<open>Response [''{"message":{"content":"x"}}''] Done\<close>] s
  show ?thesis
    unfolding r by (simp add: chat_streams_def is_chat_def chat_begin_def ready_def initial_def)
qed


section \<open>Telemetry: evaluation and helper lemmas\<close>











lemmas tegra_eval = parse_tegrastats_def parse_ram_def parse_cpu_def parse_gpu_def parse_temp_def
  ram_at_def cpu_at_def core_at_def gpu_at_def temp_at_def py_truediv_def fits_float_def
  int_of_digits_def is_digit_def digit_val_def empty_stats_def py_float_def nl_def Let_def









lemma empty_sample:
  assumes "re_search ram_at line = None" and "re_search cpu_at line = None"
    and "re_search gpu_at line = None" and "re_search temp_at line = None"
  shows "parse_tegrastats line = Inr empty_stats"
  using assms
  by (simp add: parse_tegrastats_def parse_ram_def parse_cpu_def parse_gpu_def parse_temp_def)


section \<open>RAM telemetry (C5)\<close>






section \<open>CPU telemetry (C6)\<close>






section \<open>Empty telemetry (C7)\<close>

text \<open>
  C7: when the stripped output of the command matches none of the four patterns, the
  endpoint answers with status 500 and the error \<^verbatim>\<open>Failed to parse tegrastats output\<close>; a
  response that carries a sample has status 200 and at least one field set; and the endpoint
  gives that error for nothing else than a completed command whose parse is empty.
\<close>

theorem no_pattern_is_parse_failure:
  "(re_search ram_at (strip out) = None \<and> re_search cpu_at (strip out) = None
      \<and> re_search gpu_at (strip out) = None \<and> re_search temp_at (strip out) = None \<longrightarrow>
      get_system_stats (CompletedProcess out)
        = (ErrorBody ''Failed to parse tegrastats output'' (Some (''raw'', strip out)), 500))
   \<and> (get_system_stats res = (StatsBody stats, code) \<longrightarrow> stats \<noteq> empty_stats \<and> code = 200)
   \<and> (get_system_stats res = (ErrorBody ''Failed to parse tegrastats output'' x, code) \<longrightarrow>
        (\<exists>out'. res = CompletedProcess out' \<and> parse_tegrastats (strip out') = Inr empty_stats))"
proof -
  have 1: "get_system_stats (CompletedProcess out)
        = (ErrorBody ''Failed to parse tegrastats output'' (Some (''raw'', strip out)), 500)"
    if "re_search ram_at (strip out) = None" "re_search cpu_at (strip out) = None"
      "re_search gpu_at (strip out) = None" "re_search temp_at (strip out) = None"
    using empty_sample [OF that] by (simp add: get_system_stats_def)
  have 2: "stats \<noteq> empty_stats \<and> code = 200" if "get_system_stats res = (StatsBody stats, code)"
    using that
    by (auto simp: get_system_stats_def Let_def split: run_result.splits sum.splits if_splits)
  have 3: "\<exists>out'. res = CompletedProcess out' \<and> parse_tegrastats (strip out') = Inr empty_stats"
    if "get_system_stats res = (ErrorBody ''Failed to parse tegrastats output'' x, code)"
    using that
    by (auto simp: get_system_stats_def Let_def split: run_result.splits sum.splits if_splits)
  from 1 2 3 show ?thesis by blast
qed

theorem no_pattern_is_parse_failure_witness:
  "re_search ram_at (strip '' tegrastats: nothing to report '') = None
   \<and> get_system_stats (CompletedProcess '' tegrastats: nothing to report '')
       = (ErrorBody ''Failed to parse tegrastats output''
            (Some (''raw'', ''tegrastats: nothing to report'')), 500)"
proof -
  have s: "strip '' tegrastats: nothing to report '' = ''tegrastats: nothing to report''"
    by (simp add: strip_def py_space_def)
  have m: "re_search ram_at ''tegrastats: nothing to report'' = None"
    "re_search cpu_at ''tegrastats: nothing to report'' = None"
    "re_search gpu_at ''tegrastats: nothing to report'' = None"
    "re_search temp_at ''tegrastats: nothing to report'' = None"
    by (simp_all add: re_search.simps ram_at_def cpu_at_def gpu_at_def temp_at_def)
  from no_pattern_is_parse_failure [of "'' tegrastats: nothing to report ''"] m show ?thesis
    unfolding s by simp
qed



section \<open>Memory admission guard (C8)\<close>






end
